theory Spec2Isabelle
  imports Main "HOL-Library.AList" "HOL-Library.Sublist"
begin

section \<open>Strings and exceptions\<close>

text \<open>
  A Python \<open>str\<close> is modelled as a \<open>string\<close>; a \<open>char\<close> stands for the code point
  of the same number (the code points below 256). The three marks in the program's
  messages that lie outside that range are written as their UTF-8 bytes.

  Exceptions are values. Only subclasses of \<open>Exception\<close> are modelled, which is
  what the source's \<open>except Exception\<close> clauses catch; \<open>FileNotFoundError\<close> is kept
  apart because \<open>_run_worker\<close> has a clause of its own for it.
\<close>

datatype exn = FileNotFoundError string | ValueError string | OtherError string

fun exn_str :: "exn \<Rightarrow> string" where
  "exn_str (FileNotFoundError m) = m"
| "exn_str (ValueError m) = m"
| "exn_str (OtherError m) = m"

text \<open>\<open>try: body  except Exception: handler\<close>\<close>

definition try_except :: "exn + 'a \<Rightarrow> (exn \<Rightarrow> exn + 'a) \<Rightarrow> exn + 'a" where
  "try_except body handler = (case body of Inl e \<Rightarrow> handler e | Inr v \<Rightarrow> Inr v)"

text \<open>
  \<open>str.isspace\<close> on the code points below 256: TAB, LF, VT, FF, CR, the four
  separators FS, GS, RS, US, the space, NEL and the no-break space.
\<close>

definition py_isspace :: "char \<Rightarrow> bool" where
  "py_isspace c = (of_char c \<in> {9, 10, 11, 12, 13, 28, 29, 30, 31, 32, 133, 160 :: nat})"

text \<open>\<open>s.strip()\<close>\<close>

definition py_strip :: "string \<Rightarrow> string" where
  "py_strip s = rev (dropWhile py_isspace (rev (dropWhile py_isspace s)))"

text \<open>\<open>s.split()\<close>: the maximal runs of characters that are not whitespace.\<close>

fun split_ws :: "string \<Rightarrow> string \<Rightarrow> string list" where
  "split_ws cur [] = (if cur = [] then [] else [cur])"
| "split_ws cur (c # cs) =
     (if py_isspace c then (if cur = [] then split_ws [] cs else cur # split_ws [] cs)
      else split_ws (cur @ [c]) cs)"

definition py_split :: "string \<Rightarrow> string list" where
  "py_split s = split_ws [] s"

text \<open>\<open>sep.join(xs)\<close>\<close>

fun py_join :: "string \<Rightarrow> string list \<Rightarrow> string" where
  "py_join sep [] = []"
| "py_join sep [x] = x"
| "py_join sep (x # y # ys) = x @ sep @ py_join sep (y # ys)"

text \<open>\<open>str(n)\<close> for an \<open>int\<close>: decimal digits, a leading minus sign when negative.\<close>

definition digit_char :: "nat \<Rightarrow> char" where
  "digit_char d = ''0123456789'' ! d"

function str_nat :: "nat \<Rightarrow> string" where
  "str_nat n = (if n < 10 then [digit_char n] else str_nat (n div 10) @ [digit_char (n mod 10)])"
  by pat_completeness auto
termination
  by (relation "measure id") auto

declare str_nat.simps [simp del]

definition str_int :: "int \<Rightarrow> string" where
  "str_int i = (if i < 0 then CHR ''-'' # str_nat (nat (- i)) else str_nat (nat i))"

section \<open>The tokenizer of the standard library: \<open>shlex.split\<close>\<close>

text \<open>
  \<open>_split_flags\<close> calls \<open>shlex.split(s)\<close>, that is a \<open>shlex\<close> lexer with
  \<open>posix = True\<close>, \<open>whitespace_split = True\<close>, \<open>commenters = ''\<close> and no punctuation
  characters. The model follows \<open>shlex.read_token\<close> of CPython under these settings:
  the branches for commenters and punctuation characters can never be taken and are left
  out, every other branch is kept in the order of the source.

  \<open>self.state\<close> is \<open>None\<close> past the end of the input, \<open>' '\<close> between tokens, \<open>'a'\<close> inside a
  word, the quote character inside quotes, and the escape character after a backslash.
\<close>

datatype lex_state = S_eof | S_ws | S_word | S_quote char | S_escape

definition sh_whitespace :: "char \<Rightarrow> bool" where
  "sh_whitespace c = (c \<in> {CHR '' '', CHR 0x09, CHR 0x0D, CHR 0x0A})"

definition sh_quotes :: "char \<Rightarrow> bool" where
  "sh_quotes c = (c \<in> {CHR 0x27, CHR 0x22})"

definition sh_escape :: "char \<Rightarrow> bool" where
  "sh_escape c = (c = CHR 0x5C)"

definition sh_escapedquotes :: "char \<Rightarrow> bool" where
  "sh_escapedquotes c = (c = CHR 0x22)"

text \<open>
  \<open>wordchars\<close> in POSIX mode: the ASCII letters and digits, the underscore and the
  letters of Latin-1 (U+00C0 to U+00FF without the two operators U+00D7 and U+00F7).
\<close>

definition sh_wordchars :: "char \<Rightarrow> bool" where
  "sh_wordchars c =
     (let n = (of_char c :: nat)
      in (97 \<le> n \<and> n \<le> 122) \<or> (65 \<le> n \<and> n \<le> 90) \<or> (48 \<le> n \<and> n \<le> 57) \<or> n = 95
         \<or> (192 \<le> n \<and> n \<le> 255 \<and> n \<noteq> 215 \<and> n \<noteq> 247))"

text \<open>\<open>escapedstate in self.quotes\<close>, for the values \<open>escapedstate\<close> can hold.\<close>

fun in_quotes_state :: "lex_state \<Rightarrow> bool" where
  "in_quotes_state (S_quote q) = True"
| "in_quotes_state _ = False"

text \<open>
  The \<open>while True\<close> loop of \<open>read_token\<close>. Arguments: \<open>self.state\<close>, \<open>self.token\<close>,
  \<open>quoted\<close>, \<open>escapedstate\<close> and the unread input; each iteration reads one character
  (none at the end of the input). A \<open>break\<close> returns the token, \<open>quoted\<close>, the state
  and the input left.
\<close>

fun read_token_loop ::
  "lex_state \<Rightarrow> string \<Rightarrow> bool \<Rightarrow> lex_state \<Rightarrow> string
     \<Rightarrow> exn + (string \<times> bool \<times> lex_state \<times> string)" where
  "read_token_loop st tok quoted es [] =
     (case st of
        S_eof \<Rightarrow> Inr ([], quoted, S_eof, [])
      | S_ws \<Rightarrow> Inr (tok, quoted, S_eof, [])
      | S_quote q \<Rightarrow> Inl (ValueError ''No closing quotation'')
      | S_escape \<Rightarrow> Inl (ValueError ''No escaped character'')
      | S_word \<Rightarrow> Inr (tok, quoted, S_eof, []))"
| "read_token_loop st tok quoted es (c # cs) =
     (case st of
        S_eof \<Rightarrow> Inr ([], quoted, S_eof, cs)
      | S_ws \<Rightarrow>
          if sh_whitespace c then
            (if tok \<noteq> [] \<or> quoted then Inr (tok, quoted, S_ws, cs)
             else read_token_loop S_ws tok quoted es cs)
          else if sh_escape c then read_token_loop S_escape tok quoted S_word cs
          else if sh_wordchars c then read_token_loop S_word [c] quoted es cs
          else if sh_quotes c then read_token_loop (S_quote c) tok quoted es cs
          else read_token_loop S_word [c] quoted es cs
      | S_quote q \<Rightarrow>
          if c = q then read_token_loop S_word tok True es cs
          else if sh_escape c \<and> sh_escapedquotes q
            then read_token_loop S_escape tok True (S_quote q) cs
          else read_token_loop (S_quote q) (tok @ [c]) True es cs
      | S_escape \<Rightarrow>
          (let tok' = (if in_quotes_state es \<and> \<not> sh_escape c \<and> S_quote c \<noteq> es
                       then tok @ [CHR 0x5C] else tok)
           in read_token_loop es (tok' @ [c]) quoted es cs)
      | S_word \<Rightarrow>
          if sh_whitespace c then
            (if tok \<noteq> [] \<or> quoted then Inr (tok, quoted, S_ws, cs)
             else read_token_loop S_ws tok quoted es cs)
          else if sh_quotes c then read_token_loop (S_quote c) tok quoted es cs
          else if sh_escape c then read_token_loop S_escape tok quoted S_word cs
          else read_token_loop S_word (tok @ [c]) quoted es cs)"

text \<open>
  \<open>read_token\<close>: \<open>quoted\<close> starts False, \<open>escapedstate\<close> starts as \<open>' '\<close>, the token
  is empty (it is reset after every call); an empty unquoted result is \<open>None\<close>.
\<close>

definition read_token :: "lex_state \<Rightarrow> string \<Rightarrow> exn + (string option \<times> lex_state \<times> string)" where
  "read_token st inp =
     (case read_token_loop st [] False S_ws inp of
        Inl e \<Rightarrow> Inl e
      | Inr (tok, quoted, st', rest) \<Rightarrow>
          Inr (if \<not> quoted \<and> tok = [] then None else Some tok, st', rest))"

text \<open>Every call of \<open>read_token\<close> that reads a character leaves less input.\<close>

lemma read_token_loop_rest:
  "read_token_loop st tok quoted es inp = Inr (t, q', st', rest)
     \<Longrightarrow> length rest \<le> length inp - 1"
proof (induction st tok quoted es inp rule: read_token_loop.induct)
  case (1 st tok quoted es)
  then show ?case by (cases st) auto
next
  case (2 st tok quoted es c cs)
  note IH = "2.IH" and prems = "2.prems"
  show ?case
  proof (cases st)
    case S_eof
    with prems show ?thesis by simp
  next
    case S_ws
    with prems IH(1-5) show ?thesis
      by (simp split: if_splits)
  next
    case S_word
    with prems IH(6-9) show ?thesis
      by (simp split: if_splits)
  next
    case (S_quote q)
    with prems IH(10-12) show ?thesis
      by (simp split: if_splits)
  next
    case S_escape
    with prems IH(13) show ?thesis
      by (simp add: Let_def split: if_splits)
  qed
qed

lemma read_token_Some_shorter:
  assumes "read_token st inp = Inr (Some t, st', rest)"
  shows "length rest < length inp"
proof (cases "read_token_loop st [] False S_ws inp")
  case (Inl e)
  with assms show ?thesis by (simp add: read_token_def)
next
  case (Inr r)
  obtain tok q st2 rest2 where r: "r = (tok, q, st2, rest2)"
    by (cases r) auto
  from assms Inr r have eqs: "st2 = st'" "rest2 = rest" and tq: "q \<or> tok \<noteq> []"
    by (simp_all add: read_token_def split: if_splits)
  have loop: "read_token_loop st [] False S_ws inp = Inr (tok, q, st', rest)"
    using Inr r eqs by simp
  have "inp \<noteq> []"
  proof
    assume "inp = []"
    with loop have "tok = [] \<and> \<not> q" by (cases st) simp_all
    with tq show False by simp
  qed
  moreover from loop have "length rest \<le> length inp - 1"
    by (rule read_token_loop_rest)
  ultimately show ?thesis by (cases inp) simp_all
qed

text \<open>
  \<open>list(lex)\<close>: \<open>__next__\<close> calls \<open>get_token\<close>, which here is \<open>read_token\<close> (nothing is
  pushed back and there is no file stack), until it returns \<open>eof = None\<close>.
\<close>

function lex_tokens :: "lex_state \<Rightarrow> string \<Rightarrow> exn + string list" where
  "lex_tokens st inp =
     (case read_token st inp of
        Inl e \<Rightarrow> Inl e
      | Inr (None, st', rest) \<Rightarrow> Inr []
      | Inr (Some t, st', rest) \<Rightarrow>
          (case lex_tokens st' rest of Inl e \<Rightarrow> Inl e | Inr ts \<Rightarrow> Inr (t # ts)))"
  by pat_completeness auto
termination
  apply (relation "measure (\<lambda>(st, inp). length inp)")
   apply (rule wf_measure)
  apply (clarsimp simp del: read_token_loop.simps)
  apply (erule read_token_Some_shorter)
  done

declare lex_tokens.simps [simp del]

definition shlex_split :: "string \<Rightarrow> exn + string list" where
  "shlex_split s = lex_tokens S_ws s"

text \<open>
  \<open>App._split_flags\<close>: the empty string gives no flags; a string that \<open>shlex\<close> rejects is
  split at whitespace instead.
\<close>

definition split_flags :: "string \<Rightarrow> string list" where
  "split_flags s =
     (if s = [] then []
      else (case shlex_split s of Inr ts \<Rightarrow> ts | Inl e \<Rightarrow> py_split s))"

section \<open>Settings store and secret store\<close>

definition SERVICE_NAME :: string where
  "SERVICE_NAME = ''spotify_to_tidal_gui''"

definition DEFAULT_REDIRECT_URI :: string where
  "DEFAULT_REDIRECT_URI = ''http://127.0.0.1:8888/callback''"

text \<open>
  A settings document is a Python \<open>dict\<close> from strings to strings, kept in insertion
  order: \<open>s[k] = v\<close> is \<open>AList.update k v s\<close>.
\<close>

type_synonym settings = "(string \<times> string) list"

text \<open>
  What \<open>json.load\<close> can return: a mapping, or some other JSON value (\<open>null\<close>, a list, a
  number, ...), which \<open>load_settings\<close> hands to its caller as it is.
\<close>

datatype json = JMapping settings | JOther

text \<open>
  \<open>settings.json\<close> as \<open>load_settings\<close> can find it: absent, present but \<open>open\<close> raises,
  present but \<open>json.load\<close> raises, or holding a JSON document.
\<close>

datatype file_state = Missing | Unreadable | Corrupt | Doc json

text \<open>One call of \<open>subprocess.Popen\<close>: the child, its command line and its \<open>cwd\<close>.\<close>

record spawn =
  sp_pid :: nat
  sp_cmd :: "string list"
  sp_cwd :: string

text \<open>
  Everything outside the application object that the program reads or changes.
  \<open>appdir_ok\<close>: the \<open>mkdir\<close> of the application's data directory succeeds;
  \<open>settings_writable\<close>: opening \<open>settings.json\<close> for writing and dumping into it succeed;
  \<open>keyring_available\<close> is the module constant \<open>KEYRING_AVAILABLE\<close>;
  \<open>keyring_broken\<close>: the operations of the keyring back end raise;
  \<open>keyring_store\<close>: the passwords stored under \<open>SERVICE_NAME\<close>;
  \<open>cwd\<close>: what \<open>Path.cwd()\<close> returns, or what it raises when the current directory is gone;
  \<open>tmpfs\<close>: the temporary directories that exist, each with its files;
  \<open>spawned\<close>: the children created so far; \<open>signalled\<close>: the children sent \<open>terminate()\<close>.
\<close>

record world =
  appdir_ok :: bool
  settings_file :: file_state
  settings_writable :: bool
  keyring_available :: bool
  keyring_broken :: bool
  keyring_store :: "(string \<times> string) list"
  sys_executable :: string
  cwd :: "exn + string"
  tmpfs :: "(string \<times> (string \<times> string) list) list"
  spawned :: "spawn list"
  signalled :: "nat list"

definition default_settings :: settings where
  "default_settings =
     [(''spotify_client_id'', []),
      (''spotify_username'', []),
      (''spotify_redirect_uri'', DEFAULT_REDIRECT_URI),
      (''tidal_username'', []),
      (''last_playlist_url'', []),
      (''default_subcommand'', ''sync'')]"

text \<open>
  The \<open>try\<close> block of \<open>load_settings\<close>: \<open>Inr (Some d)\<close> when it returns the document read,
  \<open>Inr None\<close> when it ends without returning (no file), \<open>Inl\<close> when it raises.
\<close>

definition load_settings_try :: "world \<Rightarrow> exn + json option" where
  "load_settings_try w =
     (if \<not> appdir_ok w then Inl (OtherError ''mkdir failed'')
      else (case settings_file w of
              Missing \<Rightarrow> Inr None
            | Unreadable \<Rightarrow> Inl (OtherError ''open failed'')
            | Corrupt \<Rightarrow> Inl (ValueError ''json.load failed'')
            | Doc d \<Rightarrow> Inr (Some d)))"

definition load_settings :: "world \<Rightarrow> exn + json" where
  "load_settings w =
     (case try_except (load_settings_try w) (\<lambda>e. Inr None) of
        Inl e \<Rightarrow> Inl e
      | Inr (Some d) \<Rightarrow> Inr d
      | Inr None \<Rightarrow> Inr (JMapping default_settings))"

text \<open>\<open>save_settings\<close> has no \<open>try\<close>: what \<open>mkdir\<close>, \<open>open\<close> or \<open>json.dump\<close> raise reaches the caller.\<close>

definition save_settings :: "settings \<Rightarrow> world \<Rightarrow> exn + world" where
  "save_settings data w =
     (if \<not> appdir_ok w then Inl (OtherError ''mkdir failed'')
      else if \<not> settings_writable w then Inl (OtherError ''open failed'')
      else Inr (w\<lparr>settings_file := Doc (JMapping data)\<rparr>))"

text \<open>\<open>a or b\<close> on strings\<close>

definition py_or :: "string \<Rightarrow> string \<Rightarrow> string" where
  "py_or a b = (if a \<noteq> [] then a else b)"

text \<open>The back end: \<open>keyring.set_password\<close> and \<open>keyring.get_password\<close> under \<open>SERVICE_NAME\<close>.\<close>

definition keyring_set_password :: "string \<Rightarrow> string \<Rightarrow> world \<Rightarrow> exn + world" where
  "keyring_set_password name v w =
     (if keyring_broken w then Inl (OtherError ''keyring error'')
      else Inr (w\<lparr>keyring_store := AList.update name v (keyring_store w)\<rparr>))"

definition keyring_get_password :: "string \<Rightarrow> world \<Rightarrow> exn + string option" where
  "keyring_get_password name w =
     (if keyring_broken w then Inl (OtherError ''keyring error'')
      else Inr (map_of (keyring_store w) name))"

definition set_secret :: "string \<Rightarrow> string \<Rightarrow> world \<Rightarrow> exn + (bool \<times> world)" where
  "set_secret name v w =
     (if \<not> keyring_available w then Inr (False, w)
      else try_except
             (case keyring_set_password name (py_or v []) w of
                Inl e \<Rightarrow> Inl e
              | Inr w' \<Rightarrow> Inr (True, w'))
             (\<lambda>e. Inr (False, w)))"

definition get_secret :: "string \<Rightarrow> world \<Rightarrow> exn + string" where
  "get_secret name w =
     (if \<not> keyring_available w then Inr []
      else try_except
             (case keyring_get_password name w of
                Inl e \<Rightarrow> Inl e
              | Inr v \<Rightarrow> Inr (case v of None \<Rightarrow> [] | Some x \<Rightarrow> py_or x []))
             (\<lambda>e. Inr []))"

section \<open>The application object\<close>

text \<open>
  \<open>self.proc\<close> is a \<open>Popen\<close> handle: \<open>poll()\<close> gives \<open>None\<close> while the child runs and
  its exit code afterwards.
\<close>

record popen =
  pid :: nat
  returncode :: "int option"

definition poll :: "popen \<Rightarrow> int option" where
  "poll h = returncode h"

datatype dialog =
    ShowError string string
  | ShowInfo string string
  | ShowWarning string string

text \<open>
  The fields of \<open>App\<close> that the event handlers and the worker use: the Tk variables of
  the form, \<open>self.settings\<close>, \<open>self.proc\<close>, \<open>self.stop_requested\<close>, \<open>self.output_queue\<close>,
  the status line and the log console. \<open>dialogs\<close> records the message boxes shown and
  \<open>threads\<close> the worker threads started, each with the \<open>cmd_args\<close> it was given.
  \<open>self.settings\<close> is a mapping: \<open>__init__\<close> calls \<open>get\<close> on it before any handler can run.
\<close>

record app =
  var_spotify_client_id :: string
  var_spotify_client_secret :: string
  var_spotify_username :: string
  var_spotify_redirect :: string
  var_tidal_username :: string
  var_tidal_password :: string
  var_action :: string
  var_playlist_url :: string
  var_subcommand_custom :: string
  var_extra_flags :: string
  var_work_dir :: string
  settings :: settings
  proc :: "popen option"
  stop_requested :: bool
  output_queue :: "string list"
  status_var :: string
  console :: string
  dialogs :: "dialog list"
  threads :: "string list list"

definition NL :: string where
  "NL = [CHR 0x0A]"

text \<open>The marks U+2026, U+2713 and U+2717 of the source's messages, as UTF-8.\<close>

definition ellipsis :: string where
  "ellipsis = [CHR 0xE2, CHR 0x80, CHR 0xA6]"

definition check_mark :: string where
  "check_mark = [CHR 0xE2, CHR 0x9C, CHR 0x93]"

definition cross_mark :: string where
  "cross_mark = [CHR 0xE2, CHR 0x9C, CHR 0x97]"

definition show_dialog :: "dialog \<Rightarrow> app \<Rightarrow> app" where
  "show_dialog d st = st\<lparr>dialogs := dialogs st @ [d]\<rparr>"

definition set_status :: "string \<Rightarrow> app \<Rightarrow> app" where
  "set_status text st = st\<lparr>status_var := text\<rparr>"

text \<open>\<open>self.output_queue.put(line)\<close>\<close>

definition put :: "string \<Rightarrow> app \<Rightarrow> app" where
  "put line st = st\<lparr>output_queue := output_queue st @ [line]\<rparr>"

subsection \<open>\<open>App.on_save_settings\<close>\<close>

text \<open>
  A handler returns the exception it raised, if any, with the application object and
  the world as it left them.
\<close>

definition settings_from_ui :: "app \<Rightarrow> settings" where
  "settings_from_ui st =
     AList.update ''last_playlist_url'' (py_strip (var_playlist_url st))
       (AList.update ''tidal_username'' (py_strip (var_tidal_username st))
          (AList.update ''spotify_redirect_uri''
             (py_or (py_strip (var_spotify_redirect st)) DEFAULT_REDIRECT_URI)
             (AList.update ''spotify_username'' (py_strip (var_spotify_username st))
                (AList.update ''spotify_client_id'' (py_strip (var_spotify_client_id st))
                   (settings st)))))"

text \<open>
  \<open>if field.strip(): ok = set_secret(name, field.strip()) and ok\<close>
\<close>

definition save_secret_field :: "string \<Rightarrow> string \<Rightarrow> bool \<Rightarrow> world \<Rightarrow> exn + (bool \<times> world)" where
  "save_secret_field name field ok w =
     (if py_strip field \<noteq> [] then
        (case set_secret name (py_strip field) w of
           Inl e \<Rightarrow> Inl e
         | Inr (r, w') \<Rightarrow> Inr (r \<and> ok, w'))
      else Inr (ok, w))"

definition on_save_settings :: "app \<Rightarrow> world \<Rightarrow> exn option \<times> app \<times> world" where
  "on_save_settings st w =
     (let st1 = st\<lparr>settings := settings_from_ui st\<rparr>
      in case save_settings (settings st1) w of
           Inl e \<Rightarrow> (Some e, st1, w)
         | Inr w1 \<Rightarrow>
             (case save_secret_field ''spotify_client_secret'' (var_spotify_client_secret st1) True w1 of
                Inl e \<Rightarrow> (Some e, st1, w1)
              | Inr (ok1, w2) \<Rightarrow>
                  (case save_secret_field ''tidal_password'' (var_tidal_password st1) ok1 w2 of
                     Inl e \<Rightarrow> (Some e, st1, w2)
                   | Inr (ok, w3) \<Rightarrow>
                       (None,
                        show_dialog
                          (if ok \<or> \<not> keyring_available w3
                           then ShowInfo ''Saved'' ''Settings saved.''
                           else ShowWarning ''Saved (with issues)''
                                  ''Settings saved, but secrets may not have been stored in keyring.'')
                          st1,
                        w3))))"

subsection \<open>\<open>App.on_cancel\<close>\<close>

text \<open>\<open>terminate()\<close> is inside a \<open>try\<close> that ignores what it raises.\<close>

definition on_cancel :: "app \<Rightarrow> world \<Rightarrow> app \<times> world" where
  "on_cancel st w =
     (case proc st of
        Some h \<Rightarrow>
          if poll h = None then
            (set_status (''Cancellation requested'' @ ellipsis) (st\<lparr>stop_requested := True\<rparr>),
             w\<lparr>signalled := signalled w @ [pid h]\<rparr>)
          else (set_status ''No running process.'' st, w)
      | None \<Rightarrow> (set_status ''No running process.'' st, w))"

subsection \<open>\<open>App.on_run\<close>\<close>

text \<open>
  \<open>not (field.strip() or get_secret(name))\<close>: the secret store is asked only when the
  field is blank.
\<close>

definition secret_missing :: "string \<Rightarrow> string \<Rightarrow> world \<Rightarrow> exn + bool" where
  "secret_missing field name w =
     (if py_strip field \<noteq> [] then Inr False
      else (case get_secret name w of Inl e \<Rightarrow> Inl e | Inr v \<Rightarrow> Inr (v = [])))"

text \<open>
  The five checks that open \<open>on_run\<close>, in the order of the source: the text of the error
  box of the first check that fails, \<open>None\<close> when all pass.
\<close>

definition validate_basics :: "app \<Rightarrow> world \<Rightarrow> exn + string option" where
  "validate_basics st w =
     (if py_strip (var_spotify_client_id st) = [] then Inr (Some ''Spotify Client ID is required.'')
      else (case secret_missing (var_spotify_client_secret st) ''spotify_client_secret'' w of
        Inl e \<Rightarrow> Inl e
      | Inr True \<Rightarrow> Inr (Some ''Spotify Client Secret is required.'')
      | Inr False \<Rightarrow>
          if py_strip (var_spotify_username st) = [] then Inr (Some ''Spotify Username is required.'')
          else if py_strip (var_tidal_username st) = [] then Inr (Some ''TIDAL Username is required.'')
          else (case secret_missing (var_tidal_password st) ''tidal_password'' w of
            Inl e \<Rightarrow> Inl e
          | Inr True \<Rightarrow> Inr (Some ''TIDAL Password is required.'')
          | Inr False \<Rightarrow> Inr None)))"

text \<open>
  The command of \<open>on_run\<close>, from the action, the stripped playlist URL, the custom
  subcommand field and the flags already split. \<open>None\<close> is the one refusal: the action
  that syncs a playlist URL without a URL.
\<close>

definition build_cmd_args :: "string \<Rightarrow> string \<Rightarrow> string \<Rightarrow> string list \<Rightarrow> string list option" where
  "build_cmd_args action playlist_url subcommand_custom extra_flags =
     (if action = ''sync_playlist_url'' then
        (if playlist_url = [] then None
         else Some ([''sync'', playlist_url] @ extra_flags))
      else if action = ''sync_favorites'' then Some ([''favorites''] @ extra_flags)
      else if action = ''sync_all_playlists'' then Some ([''playlists''] @ extra_flags)
      else Some (([py_or (py_strip subcommand_custom) ''sync'']
                  @ (if playlist_url \<noteq> [] then [playlist_url] else []))
                 @ extra_flags))"

definition prepare_command :: "app \<Rightarrow> string list option" where
  "prepare_command st =
     build_cmd_args (var_action st) (py_strip (var_playlist_url st)) (var_subcommand_custom st)
       (split_flags (py_strip (var_extra_flags st)))"

text \<open>
  Starting the worker: the console is cleared, the status set, the stop flag reset and
  the thread started with \<open>cmd_args\<close>.
\<close>

definition start_worker :: "string list \<Rightarrow> app \<Rightarrow> app" where
  "start_worker cmd_args st =
     (set_status (''Running'' @ ellipsis) (st\<lparr>console := []\<rparr>))
       \<lparr>stop_requested := False, threads := threads st @ [cmd_args]\<rparr>"

definition on_run :: "app \<Rightarrow> world \<Rightarrow> exn option \<times> app \<times> world" where
  "on_run st w =
     (case validate_basics st w of
        Inl e \<Rightarrow> (Some e, st, w)
      | Inr (Some msg) \<Rightarrow> (None, show_dialog (ShowError ''Missing'' msg) st, w)
      | Inr None \<Rightarrow>
          (case on_save_settings st w of
             (Some e, st1, w1) \<Rightarrow> (Some e, st1, w1)
           | (None, st1, w1) \<Rightarrow>
               (case prepare_command st1 of
                  None \<Rightarrow>
                    (None,
                     show_dialog (ShowError ''Missing'' ''Please paste a Spotify playlist URL.'') st1,
                     w1)
                | Some cmd_args \<Rightarrow> (None, start_worker cmd_args st1, w1))))"

section \<open>The worker thread\<close>

text \<open>
  What the surroundings do during one run of \<open>_run_worker\<close>:
  \<open>mkdtemp_res\<close>: the directory \<open>tempfile.mkdtemp\<close> creates, or what it raises;
  \<open>write_res\<close>: what \<open>cfg.write_text\<close> raises, if anything;
  \<open>popen_res\<close>: the child \<open>subprocess.Popen\<close> creates, or what it raises;
  \<open>child_lines\<close>: the lines the child writes to its merged output;
  \<open>read_error\<close>: reading the line of that number raises that exception;
  \<open>ui_events\<close>: the buttons pressed while the worker runs, in order: the list at
  position \<open>n\<close> holds the presses whose handlers run on the interface thread just before
  the worker tests the stop flag for line \<open>n\<close>; the lists at positions past the last line
  read hold the presses handled after that and before \<open>wait()\<close> returns;
  \<open>exit_code\<close>: what \<open>wait()\<close> returns;
  \<open>rmtree_ok\<close>: \<open>shutil.rmtree\<close> manages to delete the tree (with \<open>ignore_errors=True\<close> it
  returns silently when it does not).

  The handlers that can run beside the worker are \<open>on_cancel\<close> and \<open>on_run\<close>; \<open>on_run\<close> has
  no guard against a running worker. The worker that such a run request starts is
  recorded in \<open>threads\<close>; its own steps are not interleaved with those of this worker,
  so the model describes the runs in which that second worker has not reached \<open>Popen\<close>
  before this one ends.
\<close>

datatype ui_event = Cancel | Run

record run_env =
  mkdtemp_res :: "exn + string"
  write_res :: "exn option"
  popen_res :: "exn + nat"
  child_lines :: "string list"
  read_error :: "(nat \<times> exn) option"
  ui_events :: "ui_event list list"
  exit_code :: int
  rmtree_ok :: bool

definition path_exists :: "string \<Rightarrow> world \<Rightarrow> bool" where
  "path_exists d w = (map_of (tmpfs w) d \<noteq> None)"

text \<open>\<open>tempfile.mkdtemp\<close> creates a directory that did not exist, or raises.\<close>

definition mkdtemp :: "run_env \<Rightarrow> world \<Rightarrow> exn + (string \<times> world)" where
  "mkdtemp env w =
     (case mkdtemp_res env of
        Inl e \<Rightarrow> Inl e
      | Inr d \<Rightarrow>
          if path_exists d w then Inl (OtherError ''no usable temporary directory name'')
          else Inr (d, w\<lparr>tmpfs := tmpfs w @ [(d, [])]\<rparr>))"

definition write_text :: "run_env \<Rightarrow> string \<Rightarrow> string \<Rightarrow> string \<Rightarrow> world \<Rightarrow> exn + world" where
  "write_text env d name text w =
     (case write_res env of
        Some e \<Rightarrow> Inl e
      | None \<Rightarrow>
          Inr (w\<lparr>tmpfs := AList.map_entry d (AList.update name text) (tmpfs w)\<rparr>))"

text \<open>\<open>shutil.rmtree(d, ignore_errors=True)\<close> raises nothing.\<close>

definition rmtree :: "run_env \<Rightarrow> string \<Rightarrow> world \<Rightarrow> exn + world" where
  "rmtree env d w =
     (if rmtree_ok env then Inr (w\<lparr>tmpfs := AList.delete d (tmpfs w)\<rparr>) else Inr w)"

definition path_join :: "string \<Rightarrow> string \<Rightarrow> string" where
  "path_join d name = d @ ''/'' @ name"

subsection \<open>\<open>App._build_temp_config\<close>\<close>

text \<open>\<open>field.strip() or get_secret(name)\<close>\<close>

definition field_or_secret :: "string \<Rightarrow> string \<Rightarrow> world \<Rightarrow> exn + string" where
  "field_or_secret field name w =
     (if py_strip field \<noteq> [] then Inr (py_strip field) else get_secret name w)"

definition config_content :: "app \<Rightarrow> string \<Rightarrow> string \<Rightarrow> string list" where
  "config_content st client_secret tidal_password =
     [''spotify:'',
      ''  client_id: '' @ py_strip (var_spotify_client_id st),
      ''  client_secret: '' @ client_secret,
      ''  username: '' @ py_strip (var_spotify_username st),
      ''  redirect_uri: '' @ py_or (py_strip (var_spotify_redirect st)) DEFAULT_REDIRECT_URI,
      [],
      ''tidal:'',
      ''  username: '' @ py_strip (var_tidal_username st),
      ''  password: '' @ tidal_password,
      []]"

text \<open>
  The result is the path returned or the exception raised; the world is returned in
  both cases, since a directory created before the exception stays.
\<close>

definition build_temp_config :: "app \<Rightarrow> run_env \<Rightarrow> world \<Rightarrow> (exn + string) \<times> world" where
  "build_temp_config st env w =
     (case mkdtemp env w of
        Inl e \<Rightarrow> (Inl e, w)
      | Inr (tmpdir, w1) \<Rightarrow>
          (case field_or_secret (var_spotify_client_secret st) ''spotify_client_secret'' w1 of
             Inl e \<Rightarrow> (Inl e, w1)
           | Inr client_secret \<Rightarrow>
               (case field_or_secret (var_tidal_password st) ''tidal_password'' w1 of
                  Inl e \<Rightarrow> (Inl e, w1)
                | Inr tidal_password \<Rightarrow>
                    (case write_text env tmpdir ''config.yml''
                            (py_join NL (config_content st client_secret tidal_password)) w1 of
                       Inl e \<Rightarrow> (Inl e, w1)
                     | Inr w2 \<Rightarrow> (Inr tmpdir, w2)))))"

subsection \<open>\<open>App._run_worker\<close>\<close>

definition popen_spawn :: "run_env \<Rightarrow> string list \<Rightarrow> string \<Rightarrow> world \<Rightarrow> exn + (popen \<times> world)" where
  "popen_spawn env full_cmd run_cwd w =
     (case popen_res env of
        Inl e \<Rightarrow> Inl e
      | Inr p \<Rightarrow>
          Inr (\<lparr>pid = p, returncode = None\<rparr>,
               w\<lparr>spawned := spawned w @ [\<lparr>sp_pid = p, sp_cmd = full_cmd, sp_cwd = run_cwd\<rparr>]\<rparr>))"

text \<open>
  One press of a button: the handler runs to its end on the interface thread. What
  \<open>on_run\<close> raises goes to Tk's report of callback exceptions; the state stays as the
  handler left it.
\<close>

fun handle_event :: "ui_event \<Rightarrow> app \<times> world \<Rightarrow> app \<times> world" where
  "handle_event Cancel (st, w) = on_cancel st w"
| "handle_event Run (st, w) = (case on_run st w of (e, st', w') \<Rightarrow> (st', w'))"

text \<open>
  The interface thread between two steps of the worker: the handlers of the presses
  scheduled for this point, in order. \<open>final\<close> marks the point after the last line read,
  where all presses still to come are handled.
\<close>

definition ui_thread :: "run_env \<Rightarrow> nat \<Rightarrow> bool \<Rightarrow> app \<Rightarrow> world \<Rightarrow> app \<times> world" where
  "ui_thread env i final st w =
     fold handle_event
       (if final then concat (drop i (ui_events env))
        else if i < length (ui_events env) then ui_events env ! i else [])
       (st, w)"

definition read_raises :: "run_env \<Rightarrow> nat \<Rightarrow> exn option" where
  "read_raises env i =
     (case read_error env of
        None \<Rightarrow> None
      | Some (k, e) \<Rightarrow> if k = i then Some e else None)"

text \<open>
  \<open>for line in self.proc.stdout: if self.stop_requested: break; self.output_queue.put(line)\<close>.
  \<open>i\<close> counts the lines read so far. The result is the exception raised while reading,
  if any.
\<close>

fun reader_loop :: "run_env \<Rightarrow> nat \<Rightarrow> string list \<Rightarrow> app \<Rightarrow> world \<Rightarrow> exn option \<times> app \<times> world" where
  "reader_loop env i [] st w =
     (case ui_thread env i True st w of
        (st1, w1) \<Rightarrow> (read_raises env i, st1, w1))"
| "reader_loop env i (line # rest) st w =
     (case ui_thread env i False st w of
        (st1, w1) \<Rightarrow>
          (case read_raises env i of
             Some e \<Rightarrow> (Some e, st1, w1)
           | None \<Rightarrow>
               if stop_requested st1 then
                 (case ui_thread env (Suc i) True st1 w1 of (st2, w2) \<Rightarrow> (None, st2, w2))
               else reader_loop env (Suc i) rest (put line st1) w1))"

text \<open>
  What the worker reports at its end, one constructor for each message of the source.
  The report is returned beside the state so that theorems can name the branch taken;
  the source's function returns nothing.
\<close>

datatype report =
    TerminatedByUser
  | Done
  | FinishedWith int
  | NotFound exn
  | Unexpected exn

fun render :: "report \<Rightarrow> string" where
  "render TerminatedByUser = NL @ ''Process terminated by user.'' @ NL"
| "render Done = NL @ check_mark @ '' Done. Exit code 0.'' @ NL"
| "render (FinishedWith rc) = NL @ cross_mark @ '' Finished with exit code '' @ str_int rc @ ''.'' @ NL"
| "render (NotFound e) =
     NL @ cross_mark @ '' Error: '' @ exn_str e @ NL
     @ ''Make sure 'spotify_to_tidal' is installed and Python can run it.'' @ NL"
| "render (Unexpected e) = NL @ cross_mark @ '' Unexpected error: '' @ exn_str e @ NL"

text \<open>The \<open>if\<close>/\<open>elif\<close>/\<open>else\<close> after \<open>rc = self.proc.wait()\<close>.\<close>

definition exit_report :: "bool \<Rightarrow> int \<Rightarrow> report" where
  "exit_report stop rc = (if stop then TerminatedByUser else if rc = 0 then Done else FinishedWith rc)"

text \<open>
  \<open>rc = self.proc.wait()\<close>: the exit code, which stays in the handle; an attribute
  error when \<open>self.proc\<close> is \<open>None\<close>.
\<close>

definition wait :: "run_env \<Rightarrow> app \<Rightarrow> exn + (int \<times> app)" where
  "wait env st =
     (case proc st of
        None \<Rightarrow> Inl (OtherError ''NoneType object has no attribute wait'')
      | Some h \<Rightarrow> Inr (exit_code env, st\<lparr>proc := Some (h\<lparr>returncode := Some (exit_code env)\<rparr>)\<rparr>))"

text \<open>\<open>full_cmd = [sys.executable, "-m", "spotify_to_tidal"] + cmd_args\<close>\<close>

definition full_command :: "world \<Rightarrow> string list \<Rightarrow> string list" where
  "full_command w cmd_args = [sys_executable w, ''-m'', ''spotify_to_tidal''] @ cmd_args"

text \<open>The two lines the worker enqueues before it spawns the child.\<close>

definition announce :: "string list \<Rightarrow> string \<Rightarrow> app \<Rightarrow> app" where
  "announce full_cmd run_cwd st =
     put (''> Using config: '' @ path_join run_cwd ''config.yml'' @ NL @ NL)
       (put (''> Running: '' @ py_join '' '' full_cmd @ NL) st)"

text \<open>
  The \<open>try\<close> block: the report enqueued when it runs to its end or the exception raised,
  and the value of the local variable \<open>temp_root\<close> at that point.
\<close>

definition worker_try ::
  "app \<Rightarrow> string list \<Rightarrow> run_env \<Rightarrow> world \<Rightarrow> (exn + report) \<times> string option \<times> app \<times> world" where
  "worker_try st cmd_args env w =
     (case build_temp_config st env w of
        (Inl e, w1) \<Rightarrow> (Inl e, None, st, w1)
      | (Inr temp_root, w1) \<Rightarrow>
          (let run_cwd = temp_root;
               full_cmd = full_command w1 cmd_args;
               st2 = announce full_cmd run_cwd st
           in case popen_spawn env full_cmd run_cwd w1 of
                Inl e \<Rightarrow> (Inl e, Some temp_root, st2, w1)
              | Inr (h, w2) \<Rightarrow>
                  (case reader_loop env 0 (child_lines env) (st2\<lparr>proc := Some h\<rparr>) w2 of
                     (Some e, st3, w3) \<Rightarrow> (Inl e, Some temp_root, st3, w3)
                   | (None, st3, w3) \<Rightarrow>
                       (case wait env st3 of
                          Inl e \<Rightarrow> (Inl e, Some temp_root, st3, w3)
                        | Inr (rc, st4) \<Rightarrow>
                            (let r = exit_report (stop_requested st4) rc
                             in (Inr r, Some temp_root, put (render r) st4, w3))))))"

text \<open>The two \<open>except\<close> clauses.\<close>

definition worker_except :: "exn + report \<Rightarrow> app \<Rightarrow> report \<times> app" where
  "worker_except res st =
     (case res of
        Inr r \<Rightarrow> (r, st)
      | Inl (FileNotFoundError m) \<Rightarrow>
          (NotFound (FileNotFoundError m), put (render (NotFound (FileNotFoundError m))) st)
      | Inl e \<Rightarrow> (Unexpected e, put (render (Unexpected e)) st))"

text \<open>The \<open>finally\<close> clause.\<close>

definition worker_finally :: "string option \<Rightarrow> run_env \<Rightarrow> app \<Rightarrow> world \<Rightarrow> app \<times> world" where
  "worker_finally temp_root env st w =
     (case (case temp_root of
              None \<Rightarrow> (st, w)
            | Some d \<Rightarrow>
                if path_exists d w then
                  (case rmtree env d w of
                     Inr w' \<Rightarrow> (put (''Temporary config removed.'' @ NL) st, w')
                   | Inl e \<Rightarrow> (put (''Warning: could not remove temporary config.'' @ NL) st, w))
                else (st, w)) of
        (st1, w1) \<Rightarrow> (set_status ''Ready.'' (st1\<lparr>proc := None\<rparr>), w1))"

text \<open>The \<open>try\<close> statement with its \<open>except\<close> and \<open>finally\<close> clauses.\<close>

definition worker_protected :: "app \<Rightarrow> string list \<Rightarrow> run_env \<Rightarrow> world \<Rightarrow> report \<times> app \<times> world" where
  "worker_protected st cmd_args env w =
     (case worker_try st cmd_args env w of
        (res, temp_root, st1, w1) \<Rightarrow>
          (case worker_except res st1 of
             (r, st2) \<Rightarrow>
               (case worker_finally temp_root env st2 w1 of
                  (st3, w3) \<Rightarrow> (r, st3, w3))))"

text \<open>
  \<open>work_dir = Path(self.var_work_dir.get().strip() or Path.cwd())\<close>, the first statement
  of \<open>_run_worker\<close>: \<open>Path.cwd()\<close> is called only when the field is blank, and raises when
  the current directory no longer exists.
\<close>

definition work_dir :: "app \<Rightarrow> world \<Rightarrow> exn + string" where
  "work_dir st w =
     (if py_strip (var_work_dir st) \<noteq> [] then Inr (py_strip (var_work_dir st)) else cwd w)"

text \<open>
  \<open>_run_worker\<close>: the working directory is computed outside the \<open>try\<close> statement, so an
  exception there ends the thread at once, with nothing reported and nothing reset
  (\<open>Inl\<close>); otherwise the \<open>try\<close> statement runs, and the worker ends with a report
  (\<open>Inr\<close>). The value of \<open>work_dir\<close> is not used.
\<close>

definition run_worker ::
  "app \<Rightarrow> string list \<Rightarrow> run_env \<Rightarrow> world \<Rightarrow> (exn + report) \<times> app \<times> world" where
  "run_worker st cmd_args env w =
     (case work_dir st w of
        Inl e \<Rightarrow> (Inl e, st, w)
      | Inr d \<Rightarrow>
          (case worker_protected st cmd_args env w of
             (r, st', w') \<Rightarrow> (Inr r, st', w')))"

text \<open>
  The terminal states of the specification's state machine, read off the worker's
  report: the stop flag set at the exit is \<open>Cancelled\<close>, exit code zero is \<open>Succeeded\<close>,
  a non-zero exit code, a failure to spawn and an exception are \<open>Failed\<close>.
\<close>

datatype terminal = Succeeded | Failed | Cancelled

fun terminal_of :: "report \<Rightarrow> terminal" where
  "terminal_of TerminatedByUser = Cancelled"
| "terminal_of Done = Succeeded"
| "terminal_of (FinishedWith rc) = Failed"
| "terminal_of (NotFound e) = Failed"
| "terminal_of (Unexpected e) = Failed"

section \<open>Notions used in the statements\<close>

text \<open>
  A plain character is none of the characters \<open>shlex\<close> treats specially: not
  whitespace, not a quote, not the escape character. A plain token is a non-empty string
  of plain characters: what a tokenizer yields on input whose tokens are separated by
  whitespace only.
\<close>

definition plain_char :: "char \<Rightarrow> bool" where
  "plain_char c = (\<not> sh_whitespace c \<and> \<not> sh_quotes c \<and> \<not> sh_escape c)"

definition plain_token :: "string \<Rightarrow> bool" where
  "plain_token t = (t \<noteq> [] \<and> list_all plain_char t)"

text \<open>
  The value of the source's variable \<open>subcommand\<close> in each branch of \<open>on_run\<close>, and the
  reference argument that follows it there.
\<close>

definition subcommand_token :: "string \<Rightarrow> string \<Rightarrow> string" where
  "subcommand_token action subcommand_custom =
     (if action = ''sync_playlist_url'' then ''sync''
      else if action = ''sync_favorites'' then ''favorites''
      else if action = ''sync_all_playlists'' then ''playlists''
      else py_or (py_strip subcommand_custom) ''sync'')"

definition reference_args :: "string \<Rightarrow> string \<Rightarrow> string list" where
  "reference_args action playlist_url =
     (if action = ''sync_playlist_url'' then [playlist_url]
      else if action = ''sync_favorites'' then []
      else if action = ''sync_all_playlists'' then []
      else if playlist_url \<noteq> [] then [playlist_url] else [])"

section \<open>Example inputs\<close>

text \<open>A machine where nothing works: no settings directory, a keyring that raises.\<close>

definition offline_world :: world where
  "offline_world =
     \<lparr>appdir_ok = False, settings_file = Corrupt, settings_writable = False,
      keyring_available = True, keyring_broken = True, keyring_store = [],
      sys_executable = ''python'', cwd = Inr ''/home/user'', tmpfs = [], spawned = [], signalled = []\<rparr>"

text \<open>A form filled in for syncing one playlist, on a machine where everything works.\<close>

definition example_app :: app where
  "example_app =
     \<lparr>var_spotify_client_id = ''0a1b2c'', var_spotify_client_secret = ''s3cret'',
      var_spotify_username = ''alice'', var_spotify_redirect = [],
      var_tidal_username = ''alice@example.org'', var_tidal_password = ''pw'',
      var_action = ''sync_playlist_url'', var_playlist_url = ''abc123'',
      var_subcommand_custom = ''sync'', var_extra_flags = ''--dry-run'',
      var_work_dir = ''/home/alice'', settings = default_settings, proc = None,
      stop_requested = False, output_queue = [], status_var = ''Ready.'', console = [],
      dialogs = [], threads = []\<rparr>"

definition example_world :: world where
  "example_world =
     \<lparr>appdir_ok = True, settings_file = Missing, settings_writable = True,
      keyring_available = True, keyring_broken = False, keyring_store = [],
      sys_executable = ''python'', cwd = Inr ''/home/alice'', tmpfs = [], spawned = [], signalled = []\<rparr>"


definition cancelled_env :: run_env where
  "cancelled_env =
     \<lparr>mkdtemp_res = Inr ''/tmp/s2t_gui_k3'', write_res = None, popen_res = Inr 4242,
      child_lines = [''one'', ''two'', ''three''], read_error = None, ui_events = [[], [Cancel]],
      exit_code = 0, rmtree_ok = True\<rparr>"

definition stuck_env :: run_env where
  "stuck_env =
     \<lparr>mkdtemp_res = Inr ''/tmp/s2t_gui_k3'', write_res = None, popen_res = Inr 4242,
      child_lines = [''Syncing''], read_error = None, ui_events = [], exit_code = 0,
      rmtree_ok = False\<rparr>"

text \<open>
  The same form while the child of an earlier run request is still running, and what
  the surroundings do for a second worker.
\<close>

definition running_app :: app where
  "running_app =
     example_app\<lparr>proc := Some \<lparr>pid = 4242, returncode = None\<rparr>,
                 status_var := ''Running'' @ ellipsis,
                 threads := [[''sync'', ''abc123'', ''--dry-run'']]\<rparr>"

definition running_world :: world where
  "running_world =
     example_world\<lparr>tmpfs := [(''/tmp/s2t_gui_k3'', [(''config.yml'', ''spotify:'')])],
                   spawned := [\<lparr>sp_pid = 4242,
                                sp_cmd = [''python'', ''-m'', ''spotify_to_tidal'', ''sync'',
                                          ''abc123'', ''--dry-run''],
                                sp_cwd = ''/tmp/s2t_gui_k3''\<rparr>]\<rparr>"

definition second_env :: run_env where
  "second_env =
     \<lparr>mkdtemp_res = Inr ''/tmp/s2t_gui_q7'', write_res = None, popen_res = Inr 4243,
      child_lines = [''Syncing''], read_error = None, ui_events = [], exit_code = 0,
      rmtree_ok = True\<rparr>"

text \<open>The form with the playlist action chosen and the playlist field left blank.\<close>

definition blank_url_app :: app where
  "blank_url_app = example_app\<lparr>var_playlist_url := '' ''\<rparr>"

text \<open>
  The application and the world as the run request of the example leaves them, with
  its worker about to start; and a run of that worker in which the user presses Cancel
  and then Run before the second of three lines, and the child, though sent
  \<open>terminate()\<close>, goes on to exit with code 0.
\<close>

definition started_app :: app where
  "started_app = fst (snd (on_run example_app example_world))"

definition started_world :: world where
  "started_world = snd (snd (on_run example_app example_world))"

definition restarted_env :: run_env where
  "restarted_env =
     \<lparr>mkdtemp_res = Inr ''/tmp/s2t_gui_k3'', write_res = None, popen_res = Inr 4242,
      child_lines = [''one'', ''two'', ''three''], read_error = None,
      ui_events = [[], [Cancel, Run]], exit_code = 0, rmtree_ok = True\<rparr>"



section \<open>The stores do not raise\<close>

text \<open>
  C8: \<open>get_secret\<close>, \<open>set_secret\<close> and \<open>load_settings\<close> never raise to their callers: each
  returns a value in every world. When the keyring is unavailable or its operations
  raise, \<open>get_secret\<close> returns the empty string and \<open>set_secret\<close> returns False and
  stores nothing; when the settings directory cannot be made or the settings file
  cannot be opened or parsed, \<open>load_settings\<close> returns the default mapping.
\<close>

theorem stores_never_raise:
  "(\<exists>v. get_secret name w = Inr v)
   \<and> (\<exists>ok w'. set_secret name v w = Inr (ok, w'))
   \<and> (\<exists>d. load_settings w = Inr d)
   \<and> (\<not> keyring_available w \<or> keyring_broken w
        \<longrightarrow> get_secret name w = Inr [] \<and> set_secret name v w = Inr (False, w))
   \<and> (\<not> appdir_ok w \<or> settings_file w = Unreadable \<or> settings_file w = Corrupt
        \<longrightarrow> load_settings w = Inr (JMapping default_settings))"
proof -
  have g: "\<exists>v. get_secret name w = Inr v"
    by (simp add: get_secret_def try_except_def keyring_get_password_def split: option.splits)
  have s: "\<exists>ok w'. set_secret name v w = Inr (ok, w')"
    by (auto simp add: set_secret_def try_except_def keyring_set_password_def)
  have l: "\<exists>d. load_settings w = Inr d"
    by (simp add: load_settings_def try_except_def load_settings_try_def split: file_state.splits)
  have k: "\<not> keyring_available w \<or> keyring_broken w
        \<longrightarrow> get_secret name w = Inr [] \<and> set_secret name v w = Inr (False, w)"
    by (simp add: get_secret_def set_secret_def try_except_def keyring_get_password_def
        keyring_set_password_def)
  have f: "\<not> appdir_ok w \<or> settings_file w = Unreadable \<or> settings_file w = Corrupt
        \<longrightarrow> load_settings w = Inr (JMapping default_settings)"
    by (auto simp add: load_settings_def try_except_def load_settings_try_def)
  from g s l k f show ?thesis by blast
qed

theorem stores_never_raise_witness:
  "get_secret ''tidal_password'' offline_world = Inr []
   \<and> set_secret ''tidal_password'' ''hunter2'' offline_world = Inr (False, offline_world)
   \<and> load_settings offline_world = Inr (JMapping default_settings)"
proof -
  have a: "\<not> keyring_available offline_world \<or> keyring_broken offline_world"
    by (simp add: offline_world_def)
  have b: "\<not> appdir_ok offline_world \<or> settings_file offline_world = Unreadable
           \<or> settings_file offline_world = Corrupt"
    by (simp add: offline_world_def)
  from a b stores_never_raise [of "''tidal_password''" offline_world "''hunter2''"]
  show ?thesis by blast
qed

text \<open>
  \<open>save_settings\<close> is the one store operation without a \<open>try\<close>: it does raise when the
  file cannot be written.
\<close>

lemma save_settings_raises:
  "\<not> settings_writable w \<Longrightarrow> \<exists>e. save_settings d w = Inl e"
  by (simp add: save_settings_def)

section \<open>Tokenizing the extra flags\<close>

lemma word_run:
  "list_all plain_char t \<Longrightarrow>
     read_token_loop S_word tok quoted es (t @ rest) = read_token_loop S_word (tok @ t) quoted es rest"
  by (induction t arbitrary: tok) (simp_all add: plain_char_def)

lemma word_start:
  assumes "plain_char c"
  shows "read_token_loop S_ws [] False es (c # rest) = read_token_loop S_word [c] False es rest"
  using assms by (simp add: plain_char_def)

lemma token_then_space:
  assumes "plain_token t"
  shows "read_token S_ws (t @ CHR '' '' # rest) = Inr (Some t, S_ws, rest)"
proof -
  from assms obtain c cs where t: "t = c # cs" and c: "plain_char c" and cs: "list_all plain_char cs"
    by (cases t) (auto simp: plain_token_def)
  have "read_token_loop S_ws [] False S_ws (t @ CHR '' '' # rest)
          = read_token_loop S_word [c] False S_ws (cs @ CHR '' '' # rest)"
    using word_start [OF c] t by simp
  also have "\<dots> = read_token_loop S_word ([c] @ cs) False S_ws (CHR '' '' # rest)"
    using word_run [OF cs] by simp
  also have "\<dots> = Inr (t, False, S_ws, rest)"
    using t by (simp add: sh_whitespace_def)
  finally show ?thesis
    using t by (simp add: read_token_def)
qed

lemma token_at_end:
  assumes "plain_token t"
  shows "read_token S_ws t = Inr (Some t, S_eof, [])"
proof -
  from assms obtain c cs where t: "t = c # cs" and c: "plain_char c" and cs: "list_all plain_char cs"
    by (cases t) (auto simp: plain_token_def)
  have "read_token_loop S_ws [] False S_ws t = read_token_loop S_word [c] False S_ws (cs @ [])"
    using word_start [OF c] t by simp
  also have "\<dots> = read_token_loop S_word ([c] @ cs) False S_ws []"
    using word_run [OF cs] by blast
  also have "\<dots> = Inr (t, False, S_eof, [])"
    using t by simp
  finally show ?thesis
    using t by (simp add: read_token_def)
qed

lemma lex_tokens_eof: "lex_tokens S_eof [] = Inr []"
  by (simp add: lex_tokens.simps read_token_def)

lemma lex_tokens_empty: "lex_tokens S_ws [] = Inr []"
  by (simp add: lex_tokens.simps read_token_def)

lemma lex_tokens_join:
  "list_all plain_token ts \<Longrightarrow> lex_tokens S_ws (py_join '' '' ts) = Inr ts"
proof (induction "'' ''" ts rule: py_join.induct)
  case 1
  show ?case by (simp add: lex_tokens_empty)
next
  case (2 x)
  then have "plain_token x" by simp
  then show ?case
    by (subst lex_tokens.simps) (simp add: token_at_end lex_tokens_eof)
next
  case (3 x y ys)
  then have x: "plain_token x" and rest: "list_all plain_token (y # ys)" by simp_all
  have "lex_tokens S_ws (py_join '' '' (y # ys)) = Inr (y # ys)"
    using 3 rest by blast
  then show ?case
    using token_then_space [OF x, of "py_join '' '' (y # ys)"]
    by (subst lex_tokens.simps) simp
qed

lemma py_join_Nil_iff:
  "list_all plain_token ts \<Longrightarrow> (py_join sep ts = []) = (ts = [])"
  by (induction sep ts rule: py_join.induct) (simp_all add: plain_token_def)

text \<open>
  C7: tokenizing is idempotent on input that is already tokenized. For every list of
  tokens without quoting or escape characters, which joined by single spaces are
  separated by those spaces only (no token is empty and none contains whitespace),
  \<open>_split_flags\<close> of the space-joined string is the original list.
\<close>

theorem split_flags_join:
  "list_all plain_token ts \<Longrightarrow> split_flags (py_join '' '' ts) = ts"
  by (simp add: split_flags_def shlex_split_def lex_tokens_join py_join_Nil_iff)

theorem split_flags_join_witness:
  "list_all plain_token [''--dry-run'', ''--no-duplicates'']
   \<and> split_flags ''--dry-run --no-duplicates'' = [''--dry-run'', ''--no-duplicates'']"
proof -
  have p: "list_all plain_token [''--dry-run'', ''--no-duplicates'']"
    by (simp add: plain_token_def plain_char_def sh_whitespace_def sh_quotes_def sh_escape_def)
  from p split_flags_join [OF p] show ?thesis by simp
qed

lemma split_flags_dry_run: "split_flags ''--dry-run'' = [''--dry-run'']"
proof -
  have p: "list_all plain_token [''--dry-run'']"
    by (simp add: plain_token_def plain_char_def sh_whitespace_def sh_quotes_def sh_escape_def)
  from lex_tokens_join [OF p] show ?thesis by (simp add: split_flags_def shlex_split_def)
qed

section \<open>The command builder\<close>

lemma py_strip_plain:
  assumes "s \<noteq> []" "\<not> py_isspace (hd s)" "\<not> py_isspace (last s)"
  shows "py_strip s = s"
proof -
  from assms have "dropWhile py_isspace s = s"
    by (cases s) simp_all
  moreover from assms have "dropWhile py_isspace (rev s) = rev s"
    by (cases "rev s") (simp_all add: last_rev [symmetric] hd_rev)
  ultimately show ?thesis
    by (simp add: py_strip_def)
qed

lemma py_strip_abc123: "py_strip ''abc123'' = ''abc123''"
  by (rule py_strip_plain) (simp_all add: py_isspace_def)

lemma py_strip_dry_run: "py_strip ''--dry-run'' = ''--dry-run''"
  by (rule py_strip_plain) (simp_all add: py_isspace_def)

lemma prepare_command_sync_example:
  assumes "var_action st = ''sync_playlist_url''" "var_playlist_url st = ''abc123''"
    and "var_extra_flags st = ''--dry-run''"
  shows "prepare_command st = Some [''sync'', ''abc123'', ''--dry-run'']"
  using assms
  by (simp add: prepare_command_def build_cmd_args_def py_strip_abc123 py_strip_dry_run
      split_flags_dry_run)

text \<open>
  C4: every combination of action, reference and extra flags is valid except the
  action that syncs a playlist URL with a blank reference, which is refused. For every
  valid combination \<open>on_run\<close> builds a command, and the argument list is the subcommand
  token of the action, followed by the reference where the action takes one, followed
  by exactly the tokens of the extra-flags field. With the action that syncs a playlist
  URL, the reference \<open>abc123\<close> and the extra flags \<open>--dry-run\<close>, the list is
  \<open>sync\<close>, \<open>abc123\<close>, \<open>--dry-run\<close>.
\<close>

theorem command_shape:
  "(\<not> (var_action st = ''sync_playlist_url'' \<and> py_strip (var_playlist_url st) = []) \<longrightarrow>
      prepare_command st
        = Some (subcommand_token (var_action st) (var_subcommand_custom st)
                # reference_args (var_action st) (py_strip (var_playlist_url st))
                @ split_flags (py_strip (var_extra_flags st))))
   \<and> (var_action st = ''sync_playlist_url'' \<and> py_strip (var_playlist_url st) = [] \<longrightarrow>
        prepare_command st = None)
   \<and> (var_action st = ''sync_playlist_url'' \<and> var_playlist_url st = ''abc123''
        \<and> var_extra_flags st = ''--dry-run''
        \<longrightarrow> prepare_command st = Some [''sync'', ''abc123'', ''--dry-run''])"
proof -
  have valid: "\<not> (var_action st = ''sync_playlist_url'' \<and> py_strip (var_playlist_url st) = []) \<longrightarrow>
      prepare_command st
        = Some (subcommand_token (var_action st) (var_subcommand_custom st)
                # reference_args (var_action st) (py_strip (var_playlist_url st))
                @ split_flags (py_strip (var_extra_flags st)))"
    by (simp add: prepare_command_def build_cmd_args_def subcommand_token_def reference_args_def)
  have refused: "var_action st = ''sync_playlist_url'' \<and> py_strip (var_playlist_url st) = [] \<longrightarrow>
        prepare_command st = None"
    by (simp add: prepare_command_def build_cmd_args_def)
  have example: "var_action st = ''sync_playlist_url'' \<and> var_playlist_url st = ''abc123''
        \<and> var_extra_flags st = ''--dry-run''
        \<longrightarrow> prepare_command st = Some [''sync'', ''abc123'', ''--dry-run'']"
    by (simp add: prepare_command_sync_example)
  from valid refused example show ?thesis by blast
qed

theorem command_shape_witness:
  "\<not> (var_action example_app = ''sync_playlist_url'' \<and> py_strip (var_playlist_url example_app) = [])
   \<and> prepare_command example_app = Some [''sync'', ''abc123'', ''--dry-run'']
   \<and> [''sync'', ''abc123'', ''--dry-run'']
       = subcommand_token (var_action example_app) (var_subcommand_custom example_app)
         # reference_args (var_action example_app) (py_strip (var_playlist_url example_app))
         @ split_flags (py_strip (var_extra_flags example_app))
   \<and> var_action (example_app\<lparr>var_playlist_url := []\<rparr>) = ''sync_playlist_url''
   \<and> py_strip (var_playlist_url (example_app\<lparr>var_playlist_url := []\<rparr>)) = []
   \<and> prepare_command (example_app\<lparr>var_playlist_url := []\<rparr>) = None"
proof -
  have h: "var_action example_app = ''sync_playlist_url'' \<and> var_playlist_url example_app = ''abc123''
        \<and> var_extra_flags example_app = ''--dry-run''"
    by (simp add: example_app_def)
  have v: "\<not> (var_action example_app = ''sync_playlist_url''
              \<and> py_strip (var_playlist_url example_app) = [])"
    by (simp add: example_app_def py_strip_abc123)
  have b: "var_action (example_app\<lparr>var_playlist_url := []\<rparr>) = ''sync_playlist_url''
           \<and> py_strip (var_playlist_url (example_app\<lparr>var_playlist_url := []\<rparr>)) = []"
    by (simp add: example_app_def py_strip_def)
  note th = command_shape [of example_app]
  from th h have c: "prepare_command example_app = Some [''sync'', ''abc123'', ''--dry-run'']"
    by blast
  from th v have "prepare_command example_app
        = Some (subcommand_token (var_action example_app) (var_subcommand_custom example_app)
                # reference_args (var_action example_app) (py_strip (var_playlist_url example_app))
                @ split_flags (py_strip (var_extra_flags example_app)))"
    by blast
  with c have s: "[''sync'', ''abc123'', ''--dry-run'']
       = subcommand_token (var_action example_app) (var_subcommand_custom example_app)
         # reference_args (var_action example_app) (py_strip (var_playlist_url example_app))
         @ split_flags (py_strip (var_extra_flags example_app))"
    by simp
  from command_shape [of "example_app\<lparr>var_playlist_url := []\<rparr>"] b
  have n: "prepare_command (example_app\<lparr>var_playlist_url := []\<rparr>) = None"
    by blast
  from v c s b n show ?thesis by blast
qed

section \<open>Run requests\<close>

lemma set_secret_total: "\<exists>ok w'. set_secret name v w = Inr (ok, w')"
  by (auto simp add: set_secret_def try_except_def keyring_set_password_def)

lemma set_secret_frame:
  "set_secret name v w = Inr (ok, w') \<Longrightarrow>
     w' = w\<lparr>keyring_store := keyring_store w'\<rparr>"
  by (auto simp: set_secret_def try_except_def keyring_set_password_def split: if_splits)

lemma save_secret_field_total: "\<exists>ok' w'. save_secret_field name field ok w = Inr (ok', w')"
proof (cases "py_strip field = []")
  case True
  then show ?thesis by (simp add: save_secret_field_def)
next
  case False
  obtain r w' where "set_secret name (py_strip field) w = Inr (r, w')"
    using set_secret_total by blast
  with False show ?thesis by (simp add: save_secret_field_def)
qed

lemma save_secret_field_frame:
  "save_secret_field name field ok w = Inr (ok', w') \<Longrightarrow>
     w' = w\<lparr>keyring_store := keyring_store w'\<rparr>"
  by (auto simp: save_secret_field_def split: if_splits sum.splits dest: set_secret_frame)

lemma on_save_settings_frame:
  assumes "on_save_settings st w = (e, st1, w1)"
  shows "st1 = st\<lparr>settings := settings_from_ui st, dialogs := dialogs st1\<rparr>
         \<and> w1 = w\<lparr>settings_file := settings_file w1, keyring_store := keyring_store w1\<rparr>"
proof (cases "save_settings (settings_from_ui st) w")
  case (Inl x)
  with assms show ?thesis by (auto simp: on_save_settings_def)
next
  case (Inr wa)
  then have wa: "wa = w\<lparr>settings_file := Doc (JMapping (settings_from_ui st))\<rparr>"
    by (auto simp: save_settings_def split: if_splits)
  obtain ok1 w2 where s1: "save_secret_field ''spotify_client_secret'' (var_spotify_client_secret st) True wa = Inr (ok1, w2)"
    using save_secret_field_total by blast
  obtain ok2 w3 where s2: "save_secret_field ''tidal_password'' (var_tidal_password st) ok1 w2 = Inr (ok2, w3)"
    using save_secret_field_total by blast
  from save_secret_field_frame [OF s1] save_secret_field_frame [OF s2] wa
  have "w3 = w\<lparr>settings_file := settings_file w3, keyring_store := keyring_store w3\<rparr>"
    by (metis (no_types) world.surjective world.update_convs(2,6) world.select_convs)
  with assms Inr s1 s2 show ?thesis
    by (auto simp: on_save_settings_def show_dialog_def)
qed


lemma on_save_settings_world:
  assumes "on_save_settings st w = (e, st1, w1)"
  shows "tmpfs w1 = tmpfs w \<and> spawned w1 = spawned w \<and> signalled w1 = signalled w
         \<and> sys_executable w1 = sys_executable w \<and> cwd w1 = cwd w"
proof -
  from on_save_settings_frame [OF assms]
  have eq: "w1 = w\<lparr>settings_file := settings_file w1, keyring_store := keyring_store w1\<rparr>"
    by simp
  have "tmpfs w1 = tmpfs w" by (subst eq) simp
  moreover have "spawned w1 = spawned w" by (subst eq) simp
  moreover have "signalled w1 = signalled w" by (subst eq) simp
  moreover have "sys_executable w1 = sys_executable w" by (subst eq) simp
  moreover have "cwd w1 = cwd w" by (subst eq) simp
  ultimately show ?thesis by simp
qed

lemma on_save_settings_app:
  assumes "on_save_settings st w = (e, st1, w1)"
  shows "threads st1 = threads st \<and> proc st1 = proc st \<and> stop_requested st1 = stop_requested st
         \<and> output_queue st1 = output_queue st \<and> console st1 = console st
         \<and> status_var st1 = status_var st \<and> settings st1 = settings_from_ui st
         \<and> prepare_command st1 = prepare_command st"
proof -
  from on_save_settings_frame [OF assms]
  have eq: "st1 = st\<lparr>settings := settings_from_ui st, dialogs := dialogs st1\<rparr>"
    by simp
  have "threads st1 = threads st" by (subst eq) simp
  moreover have "proc st1 = proc st" by (subst eq) simp
  moreover have "stop_requested st1 = stop_requested st" by (subst eq) simp
  moreover have "output_queue st1 = output_queue st" by (subst eq) simp
  moreover have "console st1 = console st" by (subst eq) simp
  moreover have "status_var st1 = status_var st" by (subst eq) simp
  moreover have "settings st1 = settings_from_ui st" by (subst eq) simp
  moreover have "prepare_command st1 = prepare_command st"
    by (subst eq) (simp add: prepare_command_def)
  ultimately show ?thesis by simp
qed

lemma on_save_settings_ok:
  assumes "appdir_ok w" "settings_writable w"
  shows "fst (on_save_settings st w) = None
         \<and> settings_file (snd (snd (on_save_settings st w))) = Doc (JMapping (settings_from_ui st))"
proof -
  let ?wa = "w\<lparr>settings_file := Doc (JMapping (settings_from_ui st))\<rparr>"
  from assms have sv: "save_settings (settings_from_ui st) w = Inr ?wa"
    by (simp add: save_settings_def)
  obtain ok1 w2 where s1: "save_secret_field ''spotify_client_secret'' (var_spotify_client_secret st) True ?wa = Inr (ok1, w2)"
    using save_secret_field_total by blast
  obtain ok2 w3 where s2: "save_secret_field ''tidal_password'' (var_tidal_password st) ok1 w2 = Inr (ok2, w3)"
    using save_secret_field_total by blast
  have "settings_file w2 = Doc (JMapping (settings_from_ui st))"
    by (subst save_secret_field_frame [OF s1]) simp
  then have "settings_file w3 = Doc (JMapping (settings_from_ui st))"
    by (subst save_secret_field_frame [OF s2]) simp
  with sv s1 s2 show ?thesis
    by (simp add: on_save_settings_def)
qed

lemma on_run_starts:
  assumes v: "validate_basics st w = Inr None"
    and s: "on_save_settings st w = (None, st1, w1)"
    and c: "prepare_command st = Some cmd"
  shows "on_run st w = (None, start_worker cmd st1, w1)"
proof -
  from on_save_settings_app [OF s] c have "prepare_command st1 = Some cmd" by simp
  with v s show ?thesis by (simp add: on_run_def)
qed

lemma on_run_refuses:
  assumes v: "validate_basics st w = Inr None"
    and s: "on_save_settings st w = (None, st1, w1)"
    and c: "prepare_command st = None"
  shows "on_run st w
           = (None, show_dialog (ShowError ''Missing'' ''Please paste a Spotify playlist URL.'') st1, w1)"
proof -
  from on_save_settings_app [OF s] c have "prepare_command st1 = None" by simp
  with v s show ?thesis by (simp add: on_run_def)
qed

lemma on_run_save_raises:
  assumes v: "validate_basics st w = Inr None"
    and s: "on_save_settings st w = (Some e, st1, w1)"
  shows "on_run st w = (Some e, st1, w1)"
  using v s by (simp add: on_run_def)

lemma validate_basics_filled:
  assumes "py_strip (var_spotify_client_id st) \<noteq> []"
    and "py_strip (var_spotify_client_secret st) \<noteq> []"
    and "py_strip (var_spotify_username st) \<noteq> []"
    and "py_strip (var_tidal_username st) \<noteq> []"
    and "py_strip (var_tidal_password st) \<noteq> []"
  shows "validate_basics st w = Inr None"
  using assms by (simp add: validate_basics_def secret_missing_def)

lemma validate_basics_proc:
  "validate_basics (st\<lparr>proc := h\<rparr>) w = validate_basics st w"
  by (simp add: validate_basics_def split: sum.splits bool.splits)

lemma on_save_settings_proc:
  "on_save_settings (st\<lparr>proc := h\<rparr>) w
     = apsnd (apfst (\<lambda>s. s\<lparr>proc := h\<rparr>)) (on_save_settings st w)"
  by (simp add: on_save_settings_def settings_from_ui_def show_dialog_def Let_def
      split: sum.splits prod.splits)

lemma on_run_proc:
  "on_run (st\<lparr>proc := h\<rparr>) w = apsnd (apfst (\<lambda>s. s\<lparr>proc := h\<rparr>)) (on_run st w)"
proof -
  obtain e st1 w1 where s: "on_save_settings st w = (e, st1, w1)"
    by (cases "on_save_settings st w") auto
  have p: "prepare_command (st1\<lparr>proc := h\<rparr>) = prepare_command st1"
    by (simp add: prepare_command_def)
  show ?thesis
    by (simp add: on_run_def validate_basics_proc on_save_settings_proc s p show_dialog_def
        start_worker_def set_status_def split: sum.splits option.splits bool.splits)
qed

lemma save_secret_field_stores:
  assumes "keyring_available w" "\<not> keyring_broken w"
  shows "save_secret_field name field ok w
           = Inr (ok, if py_strip field \<noteq> []
                      then w\<lparr>keyring_store := AList.update name (py_strip field) (keyring_store w)\<rparr>
                      else w)"
  using assms
  by (simp add: save_secret_field_def set_secret_def try_except_def keyring_set_password_def
      py_or_def)

lemma on_save_settings_secrets:
  assumes a: "appdir_ok w" "settings_writable w" and k: "keyring_available w" "\<not> keyring_broken w"
  shows "(py_strip (var_spotify_client_secret st) \<noteq> [] \<longrightarrow>
            map_of (keyring_store (snd (snd (on_save_settings st w)))) ''spotify_client_secret''
              = Some (py_strip (var_spotify_client_secret st)))
       \<and> (py_strip (var_tidal_password st) \<noteq> [] \<longrightarrow>
            map_of (keyring_store (snd (snd (on_save_settings st w)))) ''tidal_password''
              = Some (py_strip (var_tidal_password st)))"
  using a k
  by (simp add: on_save_settings_def save_settings_def save_secret_field_stores Let_def
      AList.update_conv')

lemma on_run_world:
  assumes v: "validate_basics st w = Inr None"
  shows "snd (snd (on_run st w)) = snd (snd (on_save_settings st w))
         \<and> settings (fst (snd (on_run st w))) = settings (fst (snd (on_save_settings st w)))
         \<and> (fst (on_save_settings st w) \<noteq> None \<longrightarrow> on_run st w = on_save_settings st w)"
proof -
  obtain e st1 w1 where s: "on_save_settings st w = (e, st1, w1)"
    by (cases "on_save_settings st w") auto
  show ?thesis
  proof (cases e)
    case (Some x)
    with on_run_save_raises [OF v] s show ?thesis by simp
  next
    case None
    note s' = s [unfolded None]
    show ?thesis
    proof (cases "prepare_command st")
      case None
      from on_run_refuses [OF v s' None] s' show ?thesis
        by (simp add: show_dialog_def)
    next
      case (Some cmd)
      from on_run_starts [OF v s' Some] s' show ?thesis
        by (simp add: start_worker_def set_status_def)
    qed
  qed
qed


lemma example_fields:
  "py_strip (var_spotify_client_id example_app) \<noteq> []"
  "py_strip (var_spotify_client_secret example_app) \<noteq> []"
  "py_strip (var_spotify_username example_app) \<noteq> []"
  "py_strip (var_tidal_username example_app) \<noteq> []"
  "py_strip (var_tidal_password example_app) \<noteq> []"
  by (simp_all add: example_app_def py_strip_def py_isspace_def)

lemma example_validates:
  "validate_basics example_app w = Inr None"
  "validate_basics running_app w = Inr None"
  "validate_basics blank_url_app w = Inr None"
proof -
  show "validate_basics example_app w = Inr None"
    by (rule validate_basics_filled) (rule example_fields)+
  show "validate_basics running_app w = Inr None"
    by (rule validate_basics_filled) (simp_all add: running_app_def example_fields)
  show "validate_basics blank_url_app w = Inr None"
    by (rule validate_basics_filled) (simp_all add: blank_url_app_def example_fields)
qed

text \<open>
  C10: a run request that passes the credential checks saves before it builds the
  command or starts a worker, exactly as Save Settings does: it leaves the world
  \<open>on_save_settings\<close> leaves and the same settings in memory; if saving raises, the run
  request ends there. Where the settings file can be written it then holds the whole
  settings document taken from the form, and where the keyring works it holds every
  secret field that is not blank.
\<close>

theorem run_saves_first:
  assumes v: "validate_basics st w = Inr None"
  shows "snd (snd (on_run st w)) = snd (snd (on_save_settings st w))
       \<and> settings (fst (snd (on_run st w))) = settings (fst (snd (on_save_settings st w)))
       \<and> (fst (on_save_settings st w) \<noteq> None \<longrightarrow> on_run st w = on_save_settings st w)
       \<and> (appdir_ok w \<and> settings_writable w \<longrightarrow>
             settings_file (snd (snd (on_run st w))) = Doc (JMapping (settings_from_ui st)))
       \<and> (appdir_ok w \<and> settings_writable w \<and> keyring_available w \<and> \<not> keyring_broken w \<longrightarrow>
             (py_strip (var_spotify_client_secret st) \<noteq> [] \<longrightarrow>
                map_of (keyring_store (snd (snd (on_run st w)))) ''spotify_client_secret''
                  = Some (py_strip (var_spotify_client_secret st)))
           \<and> (py_strip (var_tidal_password st) \<noteq> [] \<longrightarrow>
                map_of (keyring_store (snd (snd (on_run st w)))) ''tidal_password''
                  = Some (py_strip (var_tidal_password st))))"
proof -
  note same = on_run_world [OF v]
  from same have w: "snd (snd (on_run st w)) = snd (snd (on_save_settings st w))"
    by simp
  have doc: "appdir_ok w \<and> settings_writable w \<longrightarrow>
             settings_file (snd (snd (on_run st w))) = Doc (JMapping (settings_from_ui st))"
    unfolding w using on_save_settings_ok [of w st] by simp
  have ring: "appdir_ok w \<and> settings_writable w \<and> keyring_available w \<and> \<not> keyring_broken w \<longrightarrow>
             (py_strip (var_spotify_client_secret st) \<noteq> [] \<longrightarrow>
                map_of (keyring_store (snd (snd (on_run st w)))) ''spotify_client_secret''
                  = Some (py_strip (var_spotify_client_secret st)))
           \<and> (py_strip (var_tidal_password st) \<noteq> [] \<longrightarrow>
                map_of (keyring_store (snd (snd (on_run st w)))) ''tidal_password''
                  = Some (py_strip (var_tidal_password st)))"
    unfolding w using on_save_settings_secrets [of w st] by blast
  from same doc ring show ?thesis by blast
qed

theorem run_saves_first_witness:
  "validate_basics example_app example_world = Inr None
   \<and> settings_file (snd (snd (on_run example_app example_world)))
       = Doc (JMapping (settings_from_ui example_app))
   \<and> map_of (keyring_store (snd (snd (on_run example_app example_world)))) ''tidal_password''
       = Some (py_strip (var_tidal_password example_app))"
proof -
  have v: "validate_basics example_app example_world = Inr None"
    by (rule example_validates)
  have ok: "appdir_ok example_world \<and> settings_writable example_world
            \<and> keyring_available example_world \<and> \<not> keyring_broken example_world"
    by (simp add: example_world_def)
  from run_saves_first [OF v] ok example_fields(5) v show ?thesis
    by blast
qed

lemma on_run_frame:
  assumes r: "on_run st w = (e, st', w')"
  shows "tmpfs w' = tmpfs w \<and> spawned w' = spawned w \<and> signalled w' = signalled w
         \<and> proc st' = proc st \<and> output_queue st' = output_queue st"
proof (cases "validate_basics st w")
  case (Inl x)
  with r show ?thesis by (auto simp: on_run_def)
next
  case (Inr m)
  show ?thesis
  proof (cases m)
    case (Some msg)
    with Inr r show ?thesis by (auto simp: on_run_def show_dialog_def)
  next
    case None
    note v = Inr [unfolded None]
    obtain e1 st1 w1 where s: "on_save_settings st w = (e1, st1, w1)"
      by (cases "on_save_settings st w") auto
    note fw = on_save_settings_world [OF s] and fa = on_save_settings_app [OF s]
    show ?thesis
    proof (cases e1)
      case (Some x)
      with on_run_save_raises [OF v] s r fw fa show ?thesis by simp
    next
      case None
      note s' = s [unfolded None]
      show ?thesis
      proof (cases "prepare_command st")
        case None
        from on_run_refuses [OF v s' None] r fw fa show ?thesis
          by (auto simp: show_dialog_def)
      next
        case (Some cmd)
        from on_run_starts [OF v s' Some] r fw fa show ?thesis
          by (auto simp: start_worker_def set_status_def)
      qed
    qed
  qed
qed

lemma on_run_no_command:
  assumes c: "prepare_command st = None"
    and r: "on_run st w = (e, st', w')"
  shows "threads st' = threads st \<and> stop_requested st' = stop_requested st
         \<and> status_var st' = status_var st \<and> console st' = console st"
proof (cases "validate_basics st w")
  case (Inl x)
  with r show ?thesis by (auto simp: on_run_def)
next
  case (Inr m)
  show ?thesis
  proof (cases m)
    case (Some msg)
    with Inr r show ?thesis by (auto simp: on_run_def show_dialog_def)
  next
    case None
    note v = Inr [unfolded None]
    obtain e1 st1 w1 where s: "on_save_settings st w = (e1, st1, w1)"
      by (cases "on_save_settings st w") auto
    note fa = on_save_settings_app [OF s]
    show ?thesis
    proof (cases e1)
      case (Some x)
      with on_run_save_raises [OF v] s r fa show ?thesis by simp
    next
      case None
      from on_run_refuses [OF v s [unfolded None] c] r fa show ?thesis
        by (auto simp: show_dialog_def)
    qed
  qed
qed

lemma blank_url_no_command:
  "var_action st = ''sync_playlist_url'' \<Longrightarrow> py_strip (var_playlist_url st) = []
     \<Longrightarrow> prepare_command st = None"
  by (simp add: prepare_command_def build_cmd_args_def)

text \<open>
  C6 (as amended): with the action that syncs a playlist URL and a playlist field that
  is blank after stripping, a run request starts no worker, spawns no child and writes
  no temporary directory; the process handle, the stop flag, the output queue, the
  status line and the console stay as they were. When the credential checks pass and
  saving does not raise, the settings and secrets have been saved as by Save Settings
  before the refusal, and the error box about the playlist URL is shown last.
\<close>

theorem blank_url_rejected:
  assumes a: "var_action st = ''sync_playlist_url''"
    and u: "py_strip (var_playlist_url st) = []"
    and r: "on_run st w = (e, st', w')"
  shows "threads st' = threads st \<and> proc st' = proc st
         \<and> stop_requested st' = stop_requested st \<and> output_queue st' = output_queue st
         \<and> status_var st' = status_var st \<and> console st' = console st
         \<and> tmpfs w' = tmpfs w \<and> spawned w' = spawned w \<and> signalled w' = signalled w
         \<and> (validate_basics st w = Inr None \<and> e = None \<longrightarrow>
               w' = snd (snd (on_save_settings st w))
               \<and> dialogs st' = dialogs (fst (snd (on_save_settings st w)))
                                @ [ShowError ''Missing'' ''Please paste a Spotify playlist URL.''])"
proof -
  note c = blank_url_no_command [OF a u]
  have saved: "validate_basics st w = Inr None \<and> e = None \<longrightarrow>
               w' = snd (snd (on_save_settings st w))
               \<and> dialogs st' = dialogs (fst (snd (on_save_settings st w)))
                                @ [ShowError ''Missing'' ''Please paste a Spotify playlist URL.'']"
  proof
    assume ve: "validate_basics st w = Inr None \<and> e = None"
    then have v: "validate_basics st w = Inr None" and e: "e = None" by simp_all
    obtain e1 st1 w1 where s: "on_save_settings st w = (e1, st1, w1)"
      by (cases "on_save_settings st w") auto
    have "e1 = None"
    proof (cases e1)
      case (Some x)
      with on_run_save_raises [OF v] s r e show ?thesis by simp
    qed simp
    with on_run_refuses [OF v _ c] s r
    show "w' = snd (snd (on_save_settings st w))
               \<and> dialogs st' = dialogs (fst (snd (on_save_settings st w)))
                                @ [ShowError ''Missing'' ''Please paste a Spotify playlist URL.'']"
      by (simp add: show_dialog_def)
  qed
  from on_run_frame [OF r] on_run_no_command [OF c r] saved show ?thesis by simp
qed


lemma blank_url_fields:
  "var_action blank_url_app = ''sync_playlist_url''"
  "py_strip (var_playlist_url blank_url_app) = []"
  by (simp_all add: blank_url_app_def example_app_def py_strip_def py_isspace_def)

theorem blank_url_rejected_witness:
  "var_action blank_url_app = ''sync_playlist_url''
   \<and> py_strip (var_playlist_url blank_url_app) = []
   \<and> threads (fst (snd (on_run blank_url_app example_world))) = threads blank_url_app
   \<and> spawned (snd (snd (on_run blank_url_app example_world))) = spawned example_world
   \<and> tmpfs (snd (snd (on_run blank_url_app example_world))) = tmpfs example_world"
proof -
  let ?res = "on_run blank_url_app example_world"
  have r: "?res = (fst ?res, fst (snd ?res), snd (snd ?res))"
    by simp
  from blank_url_rejected [OF blank_url_fields r] blank_url_fields show ?thesis
    by blast
qed

text \<open>
  The claim as stated fails: the refusal comes after \<open>on_save_settings\<close>, so the settings
  file and the keyring have changed when the error box is shown.
\<close>

theorem blank_url_saves_counterexample:
  "var_action blank_url_app = ''sync_playlist_url''
   \<and> py_strip (var_playlist_url blank_url_app) = []
   \<and> settings_file example_world = Missing
   \<and> settings_file (snd (snd (on_run blank_url_app example_world)))
       = Doc (JMapping (settings_from_ui blank_url_app))
   \<and> keyring_store example_world = []
   \<and> map_of (keyring_store (snd (snd (on_run blank_url_app example_world)))) ''tidal_password''
       = Some ''pw''"
proof -
  have v: "validate_basics blank_url_app example_world = Inr None"
    by (rule example_validates)
  have ok: "appdir_ok example_world" "settings_writable example_world"
    "keyring_available example_world" "\<not> keyring_broken example_world"
    by (simp_all add: example_world_def)
  have pw: "py_strip (var_tidal_password blank_url_app) = ''pw''"
    by (simp add: blank_url_app_def example_app_def py_strip_def py_isspace_def)
  from on_run_world [OF v]
  have w: "snd (snd (on_run blank_url_app example_world))
             = snd (snd (on_save_settings blank_url_app example_world))"
    by simp
  have "settings_file (snd (snd (on_run blank_url_app example_world)))
          = Doc (JMapping (settings_from_ui blank_url_app))"
    unfolding w using on_save_settings_ok [OF ok(1,2)] by simp
  moreover have "map_of (keyring_store (snd (snd (on_run blank_url_app example_world))))
                   ''tidal_password'' = Some ''pw''"
    unfolding w using on_save_settings_secrets [OF ok, of blank_url_app] pw by simp
  moreover have "settings_file example_world = Missing" "keyring_store example_world = []"
    by (simp_all add: example_world_def)
  ultimately show ?thesis using blank_url_fields by blast
qed

lemma running_fields:
  "var_action running_app = ''sync_playlist_url''"
  "var_playlist_url running_app = ''abc123''"
  "var_extra_flags running_app = ''--dry-run''"
  "proc running_app = Some \<lparr>pid = 4242, returncode = None\<rparr>"
  "threads running_app = [[''sync'', ''abc123'', ''--dry-run'']]"
  by (simp_all add: running_app_def example_app_def)

lemma running_world_ok:
  "appdir_ok running_world" "settings_writable running_world"
  by (simp_all add: running_world_def example_world_def)

text \<open>
  C1 (as amended): \<open>on_run\<close> does not look at the process handle. What it does is the
  same whether or not a child is running; a run request that passes the credential
  checks, saves without an exception and builds a command starts a worker thread with
  that command and clears the stop flag, also while the child of an earlier request
  has not exited. A run request that fails a credential check only shows its error
  box.
\<close>

theorem run_not_guarded:
  "on_run (st\<lparr>proc := h\<rparr>) w = apsnd (apfst (\<lambda>s. s\<lparr>proc := h\<rparr>)) (on_run st w)
   \<and> (validate_basics st w = Inr None \<and> fst (on_save_settings st w) = None
        \<and> prepare_command st = Some cmd
        \<longrightarrow> fst (on_run st w) = None
            \<and> threads (fst (snd (on_run st w))) = threads st @ [cmd]
            \<and> \<not> stop_requested (fst (snd (on_run st w)))
            \<and> proc (fst (snd (on_run st w))) = proc st)
   \<and> (validate_basics st w = Inr (Some msg)
        \<longrightarrow> on_run st w = (None, show_dialog (ShowError ''Missing'' msg) st, w))"
proof -
  have rejected: "validate_basics st w = Inr (Some msg)
        \<longrightarrow> on_run st w = (None, show_dialog (ShowError ''Missing'' msg) st, w)"
    by (simp add: on_run_def)
  have started: "validate_basics st w = Inr None \<and> fst (on_save_settings st w) = None
        \<and> prepare_command st = Some cmd
        \<longrightarrow> fst (on_run st w) = None
            \<and> threads (fst (snd (on_run st w))) = threads st @ [cmd]
            \<and> \<not> stop_requested (fst (snd (on_run st w)))
            \<and> proc (fst (snd (on_run st w))) = proc st"
  proof
    assume a: "validate_basics st w = Inr None \<and> fst (on_save_settings st w) = None
        \<and> prepare_command st = Some cmd"
    then obtain st1 w1 where s: "on_save_settings st w = (None, st1, w1)"
      by (cases "on_save_settings st w") auto
    from a have v: "validate_basics st w = Inr None" and c: "prepare_command st = Some cmd"
      by simp_all
    from on_run_starts [OF v s c] on_save_settings_app [OF s]
    show "fst (on_run st w) = None
            \<and> threads (fst (snd (on_run st w))) = threads st @ [cmd]
            \<and> \<not> stop_requested (fst (snd (on_run st w)))
            \<and> proc (fst (snd (on_run st w))) = proc st"
      by (simp add: start_worker_def set_status_def)
  qed
  with on_run_proc [where st = st and h = h and w = w] rejected show ?thesis by blast
qed

theorem run_not_guarded_witness:
  "proc running_app = Some \<lparr>pid = 4242, returncode = None\<rparr>
   \<and> validate_basics running_app running_world = Inr None
   \<and> fst (on_save_settings running_app running_world) = None
   \<and> prepare_command running_app = Some [''sync'', ''abc123'', ''--dry-run'']
   \<and> threads (fst (snd (on_run running_app running_world)))
       = threads running_app @ [[''sync'', ''abc123'', ''--dry-run'']]"
proof -
  have v: "validate_basics running_app running_world = Inr None"
    by (rule example_validates)
  have s: "fst (on_save_settings running_app running_world) = None"
    using on_save_settings_ok [OF running_world_ok] by simp
  have c: "prepare_command running_app = Some [''sync'', ''abc123'', ''--dry-run'']"
    by (rule prepare_command_sync_example) (rule running_fields)+
  from run_not_guarded [where st = running_app and h = "proc running_app" and w = running_world
      and cmd = "[''sync'', ''abc123'', ''--dry-run'']"] v s c running_fields(4)
  show ?thesis by blast
qed

section \<open>The run of the worker\<close>

lemma get_secret_total: "\<exists>v. get_secret name w = Inr v"
  by (simp add: get_secret_def try_except_def keyring_get_password_def split: option.splits)

lemma field_or_secret_total: "\<exists>v. field_or_secret field name w = Inr v"
  using get_secret_total [of name w] by (simp add: field_or_secret_def)

lemma build_temp_config_ok:
  assumes m: "mkdtemp_res env = Inr d" and f: "\<not> path_exists d w" and wr: "write_res env = None"
  shows "\<exists>w1. build_temp_config st env w = (Inr d, w1) \<and> path_exists d w1
              \<and> spawned w1 = spawned w \<and> sys_executable w1 = sys_executable w"
proof -
  let ?w1 = "w\<lparr>tmpfs := tmpfs w @ [(d, [])]\<rparr>"
  obtain cs where cs: "field_or_secret (var_spotify_client_secret st) ''spotify_client_secret'' ?w1 = Inr cs"
    using field_or_secret_total by blast
  obtain tp where tp: "field_or_secret (var_tidal_password st) ''tidal_password'' ?w1 = Inr tp"
    using field_or_secret_total by blast
  have "map_of (AList.map_entry d (AList.update ''config.yml'' x) (tmpfs w @ [(d, [])])) d \<noteq> None" for x
    using f by (simp add: map_of_map_entry path_exists_def map_add_def)
  then show ?thesis
    using m f wr cs tp
    by (simp add: build_temp_config_def mkdtemp_def write_text_def path_exists_def)
qed

lemma example_build:
  assumes "mkdtemp_res env = Inr d" "write_res env = None"
  shows "fst (build_temp_config example_app env example_world) = Inr d"
proof -
  have "\<not> path_exists d example_world"
    by (simp add: path_exists_def example_world_def)
  from build_temp_config_ok [OF assms(1) this assms(2), of example_app] show ?thesis by auto
qed

lemma on_cancel_frame:
  "on_cancel st w = (st', w') \<Longrightarrow>
     proc st' = proc st \<and> output_queue st' = output_queue st
     \<and> tmpfs w' = tmpfs w \<and> spawned w' = spawned w
     \<and> (stop_requested st \<longrightarrow> stop_requested st')"
  by (auto simp: on_cancel_def set_status_def split: option.splits if_splits)

lemma on_cancel_running:
  "proc st = Some h \<Longrightarrow> poll h = None \<Longrightarrow> stop_requested (fst (on_cancel st w))"
  by (simp add: on_cancel_def set_status_def)

lemma handle_event_frame:
  assumes "handle_event ev (st, w) = (st', w')"
  shows "proc st' = proc st \<and> output_queue st' = output_queue st
         \<and> tmpfs w' = tmpfs w \<and> spawned w' = spawned w"
proof (cases ev)
  case Cancel
  with assms on_cancel_frame [of st w st' w'] show ?thesis by simp
next
  case Run
  obtain e st1 w1 where o: "on_run st w = (e, st1, w1)"
    by (cases "on_run st w") auto
  with assms Run on_run_frame [OF o] show ?thesis by simp
qed

lemma events_frame:
  "fold handle_event evs (st, w) = (st', w') \<Longrightarrow>
     proc st' = proc st \<and> output_queue st' = output_queue st
     \<and> tmpfs w' = tmpfs w \<and> spawned w' = spawned w"
proof (induction evs arbitrary: st w)
  case Nil
  then show ?case by simp
next
  case (Cons ev evs)
  obtain st1 w1 where h: "handle_event ev (st, w) = (st1, w1)"
    by (cases "handle_event ev (st, w)")
  with Cons.prems have "fold handle_event evs (st1, w1) = (st', w')" by simp
  from Cons.IH [OF this] handle_event_frame [OF h] show ?case by simp
qed

lemma ui_thread_frame:
  "ui_thread env i final st w = (st', w') \<Longrightarrow>
     proc st' = proc st \<and> output_queue st' = output_queue st
     \<and> tmpfs w' = tmpfs w \<and> spawned w' = spawned w"
  unfolding ui_thread_def by (rule events_frame)

text \<open>Presses of Cancel alone, while the child runs: the stop flag is set by the first.\<close>

lemma cancel_events_flag:
  "Run \<notin> set evs \<Longrightarrow> fold handle_event evs (st, w) = (st', w') \<Longrightarrow> proc st = Some h
     \<Longrightarrow> poll h = None \<Longrightarrow> stop_requested st' = (stop_requested st \<or> evs \<noteq> [])"
proof (induction evs arbitrary: st w)
  case Nil
  then show ?case by simp
next
  case (Cons ev evs)
  from Cons.prems(1) have ev: "ev = Cancel" and nr: "Run \<notin> set evs"
    by (cases ev; simp)+
  obtain st1 w1 where h: "on_cancel st w = (st1, w1)"
    by (cases "on_cancel st w")
  from on_cancel_running [OF Cons.prems(3,4), of w] h have s1: "stop_requested st1" by simp
  from on_cancel_frame [OF h] Cons.prems(3) have p1: "proc st1 = Some h" by simp
  from Cons.prems(2) ev h have "fold handle_event evs (st1, w1) = (st', w')" by simp
  from Cons.IH [OF nr this p1 Cons.prems(4)] s1 show ?case by simp
qed

lemma no_run_cancel: "Run \<notin> set evs \<Longrightarrow> (Cancel \<in> set evs) = (evs \<noteq> [])"
proof (cases evs)
  case Nil
  then show ?thesis by simp
next
  case (Cons ev rest)
  assume "Run \<notin> set evs"
  with Cons have "ev = Cancel" by (cases ev) simp_all
  with Cons show ?thesis by simp
qed

text \<open>The presses scheduled from a point on: those of that point, then the later ones.\<close>

lemma presses_split:
  "concat (drop i xss) = (if i < length xss then xss ! i else []) @ concat (drop (Suc i) xss)"
proof (cases "i < length xss")
  case True
  then have "drop i xss = xss ! i # drop (Suc i) xss"
    by (simp add: Cons_nth_drop_Suc)
  with True show ?thesis by simp
next
  case False
  then show ?thesis by simp
qed

lemma presses_subset:
  "set (if i < length xss then xss ! i else []) \<subseteq> set (concat xss)"
  "set (concat (drop i xss)) \<subseteq> set (concat xss)"
proof -
  show "set (if i < length xss then xss ! i else []) \<subseteq> set (concat xss)"
    by (auto intro: nth_mem)
  show "set (concat (drop i xss)) \<subseteq> set (concat xss)"
    by (auto dest: in_set_dropD)
qed

lemma subset_of_Nil: "set xs \<subseteq> set ys \<Longrightarrow> ys = [] \<Longrightarrow> xs = []"
  by (cases xs) auto

lemma ui_thread_quiet:
  assumes "concat (ui_events env) = []"
  shows "ui_thread env i final st w = (st, w)"
proof -
  have here: "(if i < length (ui_events env) then ui_events env ! i else []) = []"
    by (rule subset_of_Nil [OF presses_subset(1) assms])
  have later: "concat (drop i (ui_events env)) = []"
    by (rule subset_of_Nil [OF presses_subset(2) assms])
  show ?thesis
    unfolding ui_thread_def here later by simp
qed

lemma reader_loop_frame:
  "reader_loop env i ls st w = (r, st', w') \<Longrightarrow>
     proc st' = proc st \<and> tmpfs w' = tmpfs w \<and> spawned w' = spawned w"
proof (induction ls arbitrary: i st w)
  case Nil
  then show ?case
    by (auto split: prod.splits dest: ui_thread_frame)
next
  case (Cons line rest)
  obtain st1 w1 where u: "ui_thread env i False st w = (st1, w1)"
    by (cases "ui_thread env i False st w")
  note f1 = ui_thread_frame [OF u]
  show ?case
  proof (cases "read_raises env i")
    case (Some e)
    with Cons.prems u f1 show ?thesis by auto
  next
    case None
    show ?thesis
    proof (cases "stop_requested st1")
      case True
      obtain st2 w2 where u2: "ui_thread env (Suc i) True st1 w1 = (st2, w2)"
        by (cases "ui_thread env (Suc i) True st1 w1")
      from Cons.prems u None True u2 have "st' = st2" "w' = w2" by auto
      with ui_thread_frame [OF u2] f1 show ?thesis by auto
    next
      case False
      with Cons.prems u None have "reader_loop env (Suc i) rest (put line st1) w1 = (r, st', w')"
        by auto
      from Cons.IH [OF this] f1 show ?thesis by (auto simp: put_def)
    qed
  qed
qed

lemma reader_loop_quiet:
  "concat (ui_events env) = [] \<Longrightarrow> reader_loop env i ls st w = (r, st', w') \<Longrightarrow>
     stop_requested st' = stop_requested st"
proof (induction ls arbitrary: i st w)
  case Nil
  then show ?case by (auto simp: ui_thread_quiet simp del: concat_eq_Nil_conv)
next
  case (Cons line rest)
  then show ?case
    by (auto simp: ui_thread_quiet put_def simp del: concat_eq_Nil_conv
        split: option.splits if_splits)
qed

lemma reader_loop_no_error:
  "read_error env = None \<Longrightarrow> fst (reader_loop env i ls st w) = None"
proof (induction ls arbitrary: i st w)
  case Nil
  then show ?case by (auto simp: read_raises_def split: prod.splits)
next
  case (Cons line rest)
  then show ?case
    by (auto simp: read_raises_def split: prod.splits)
qed

text \<open>
  With no run request beside the worker, a cancellation that has happened or is still
  to come means the stop flag is set when the loop is left without an exception.
\<close>

lemma reader_loop_cancelled:
  assumes nr: "Run \<notin> set (concat (ui_events env))"
  shows "reader_loop env i ls st w = (None, st', w') \<Longrightarrow> proc st = Some h \<Longrightarrow> poll h = None
           \<Longrightarrow> stop_requested st \<or> Cancel \<in> set (concat (drop i (ui_events env)))
           \<Longrightarrow> stop_requested st'"
proof (induction ls arbitrary: i st w)
  case Nil
  let ?rest = "concat (drop i (ui_events env))"
  from nr presses_subset(2) [of i "ui_events env"] have n: "Run \<notin> set ?rest" by blast
  obtain st1 w1 where u: "fold handle_event ?rest (st, w) = (st1, w1)"
    by (cases "fold handle_event ?rest (st, w)")
  from Nil.prems(1) u have "st' = st1" by (simp add: ui_thread_def)
  with cancel_events_flag [OF n u Nil.prems(2,3)] Nil.prems(4) no_run_cancel [OF n]
  show ?case by simp
next
  case (Cons line rest)
  let ?here = "if i < length (ui_events env) then ui_events env ! i else []"
  let ?later = "concat (drop (Suc i) (ui_events env))"
  from nr presses_subset(1) [of i "ui_events env"] have nh: "Run \<notin> set ?here" by blast
  from nr presses_subset(2) [of "Suc i" "ui_events env"] have nl: "Run \<notin> set ?later" by blast
  obtain st1 w1 where u: "ui_thread env i False st w = (st1, w1)"
    by (cases "ui_thread env i False st w")
  then have f: "fold handle_event ?here (st, w) = (st1, w1)"
    by (simp add: ui_thread_def)
  note flag1 = cancel_events_flag [OF nh f Cons.prems(2,3)]
  from ui_thread_frame [OF u] Cons.prems(2) have p1: "proc st1 = Some h" by simp
  from Cons.prems(1) u have r: "read_raises env i = None"
    by (cases "read_raises env i") auto
  show ?case
  proof (cases "stop_requested st1")
    case True
    obtain st2 w2 where u2: "ui_thread env (Suc i) True st1 w1 = (st2, w2)"
      by (cases "ui_thread env (Suc i) True st1 w1")
    then have f2: "fold handle_event ?later (st1, w1) = (st2, w2)"
      by (simp add: ui_thread_def)
    from cancel_events_flag [OF nl f2 p1 Cons.prems(3)] True have "stop_requested st2" by simp
    with Cons.prems(1) u r True u2 show ?thesis by simp
  next
    case False
    with flag1 have quiet: "\<not> stop_requested st" "?here = []" by simp_all
    with Cons.prems(4) presses_split [of i "ui_events env"]
    have later: "Cancel \<in> set ?later" by simp
    from p1 have pr: "proc (put line st1) = Some h" by (simp add: put_def)
    from Cons.prems(1) u r False
    have "reader_loop env (Suc i) rest (put line st1) w1 = (None, st', w')" by simp
    from Cons.IH [OF this pr Cons.prems(3)] later show ?thesis by simp
  qed
qed


lemma str_int_neg15: "str_int (-15) = ''-15''"
  by (simp add: str_int_def str_nat.simps digit_char_def)

lemma worker_try_exit:
  assumes b: "build_temp_config st env w = (Inr d, w1)"
    and p: "popen_res env = Inr p"
    and rl: "reader_loop env 0 (child_lines env)
               ((announce (full_command w1 cmd) d st)\<lparr>proc := Some \<lparr>pid = p, returncode = None\<rparr>\<rparr>)
               (w1\<lparr>spawned := spawned w1 @ [\<lparr>sp_pid = p, sp_cmd = full_command w1 cmd, sp_cwd = d\<rparr>]\<rparr>)
             = (None, st3, w3)"
  shows "\<exists>st4. worker_try st cmd env w
                  = (Inr (exit_report (stop_requested st3) (exit_code env)), Some d, st4, w3)
               \<and> output_queue st4
                  = output_queue st3 @ [render (exit_report (stop_requested st3) (exit_code env))]"
proof -
  from reader_loop_frame [OF rl] have "proc st3 = Some \<lparr>pid = p, returncode = None\<rparr>"
    by simp
  then have w: "wait env st3
      = Inr (exit_code env, st3\<lparr>proc := Some \<lparr>pid = p, returncode = Some (exit_code env)\<rparr>\<rparr>)"
    by (simp add: wait_def)
  show ?thesis
    by (simp add: worker_try_def b p popen_spawn_def Let_def rl w put_def)
qed

lemma worker_finally_frame:
  "worker_finally tr env st w = (st', w') \<Longrightarrow>
     set (output_queue st) \<subseteq> set (output_queue st') \<and> proc st' = None
     \<and> status_var st' = ''Ready.'' \<and> spawned w' = spawned w"
  by (auto simp: worker_finally_def rmtree_def put_def set_status_def
      split: option.splits if_splits)

text \<open>
  The first statement of \<open>_run_worker\<close> either ends the thread or lets the \<open>try\<close>
  statement run.
\<close>

lemma run_worker_Inr:
  assumes "work_dir st w = Inr wd" and "run_worker st cmd env w = (r, st', w')"
  shows "\<exists>r0. r = Inr r0 \<and> worker_protected st cmd env w = (r0, st', w')"
  using assms by (auto simp: run_worker_def split: prod.splits)

lemma run_worker_Inl:
  assumes "work_dir st w = Inl e"
  shows "run_worker st cmd env w = (Inl e, st, w)"
  using assms by (simp add: run_worker_def)

lemma run_worker_cases:
  assumes "run_worker st cmd env w = (r, st', w')"
  shows "(\<exists>e. work_dir st w = Inl e \<and> r = Inl e \<and> st' = st \<and> w' = w)
         \<or> (\<exists>wd r0. work_dir st w = Inr wd \<and> r = Inr r0
                   \<and> worker_protected st cmd env w = (r0, st', w'))"
proof (cases "work_dir st w")
  case (Inl e)
  with assms run_worker_Inl [OF Inl, of cmd env] show ?thesis by simp
next
  case (Inr wd)
  with run_worker_Inr [OF Inr assms] show ?thesis by simp
qed

lemma example_work_dir: "work_dir example_app w = Inr ''/home/alice''"
  by (simp add: work_dir_def example_app_def py_strip_def py_isspace_def)

lemma protected_finished:
  assumes t: "worker_try st cmd env w = (Inr r0, tr, st4, w3)"
    and r: "worker_protected st cmd env w = (r, st', w')"
  shows "r = r0 \<and> set (output_queue st4) \<subseteq> set (output_queue st')
         \<and> proc st' = None \<and> status_var st' = ''Ready.''"
proof -
  obtain st5 w5 where f: "worker_finally tr env st4 w3 = (st5, w5)"
    by (cases "worker_finally tr env st4 w3")
  from r t f have "r = r0" "st' = st5"
    by (simp_all add: worker_protected_def worker_except_def)
  with worker_finally_frame [OF f] show ?thesis by simp
qed




lemma worker_try_cancel:
  assumes nr: "Run \<notin> set (concat (ui_events env))"
    and c: "Cancel \<in> set (concat (ui_events env))"
    and t: "worker_try st cmd env w = (Inr r0, tr, st4, w3)"
  shows "r0 = TerminatedByUser"
proof (cases "build_temp_config st env w")
  case (Pair res w1)
  show ?thesis
  proof (cases res)
    case (Inl e)
    with Pair t show ?thesis by (simp add: worker_try_def)
  next
    case (Inr d)
    note b = Pair [unfolded Inr]
    show ?thesis
    proof (cases "popen_res env")
      case (Inl e)
      with b t show ?thesis by (simp add: worker_try_def popen_spawn_def Let_def)
    next
      case (Inr p)
      let ?h = "\<lparr>pid = p, returncode = None\<rparr>"
      let ?st2 = "(announce (full_command w1 cmd) d st)\<lparr>proc := Some ?h\<rparr>"
      let ?w2 = "w1\<lparr>spawned := spawned w1 @ [\<lparr>sp_pid = p, sp_cmd = full_command w1 cmd, sp_cwd = d\<rparr>]\<rparr>"
      obtain q st3 w3' where rl: "reader_loop env 0 (child_lines env) ?st2 ?w2 = (q, st3, w3')"
        by (cases "reader_loop env 0 (child_lines env) ?st2 ?w2")
      show ?thesis
      proof (cases q)
        case (Some e)
        with b Inr rl t show ?thesis by (simp add: worker_try_def popen_spawn_def Let_def)
      next
        case None
        have "stop_requested st3"
          using c by (intro reader_loop_cancelled [OF nr rl [unfolded None], of ?h])
            (simp_all add: poll_def)
        moreover from worker_try_exit [OF b Inr rl [unfolded None]] t
        have "r0 = exit_report (stop_requested st3) (exit_code env)" by auto
        ultimately show ?thesis by (simp add: exit_report_def)
      qed
    qed
  qed
qed

lemma protected_report:
  assumes "worker_try st cmd env w = (res, tr, st1, w1)"
    and "worker_protected st cmd env w = (r, st', w')"
  shows "r = fst (worker_except res st1)"
  using assms by (auto simp: worker_protected_def split: prod.splits)

lemma worker_except_Inl: "terminal_of (fst (worker_except (Inl e) st)) = Failed"
  by (cases e) (simp_all add: worker_except_def)

lemma worker_except_Inr: "fst (worker_except (Inr r) st) = r"
  by (simp add: worker_except_def)

text \<open>
  C3 (as amended): when the user cancels while the child runs, so that the stop flag is
  set before \<open>wait()\<close> returns, and no run request is made while the worker runs, the
  run never ends as succeeded; and once the child's exit is observed (the worker got
  past its first statement, the child was spawned and no read raised) the run ends as
  cancelled, whatever the exit code, zero included.
\<close>

theorem cancel_wins:
  assumes c: "Cancel \<in> set (concat (ui_events env))"
    and nr: "Run \<notin> set (concat (ui_events env))"
    and r: "run_worker st cmd env w = (r, st', w')"
  shows "(\<forall>r0. r = Inr r0 \<longrightarrow> terminal_of r0 \<noteq> Succeeded)
         \<and> (work_dir st w = Inr wd \<and> fst (build_temp_config st env w) = Inr d
              \<and> popen_res env = Inr p \<and> read_error env = None
              \<longrightarrow> r = Inr TerminatedByUser \<and> terminal_of TerminatedByUser = Cancelled
                  \<and> render TerminatedByUser \<in> set (output_queue st'))"
proof
  show "\<forall>r0. r = Inr r0 \<longrightarrow> terminal_of r0 \<noteq> Succeeded"
  proof (intro allI impI)
    fix r0
    assume "r = Inr r0"
    with run_worker_cases [OF r] have pr: "worker_protected st cmd env w = (r0, st', w')"
      by auto
    obtain res tr st1 w1 where t: "worker_try st cmd env w = (res, tr, st1, w1)"
      by (cases "worker_try st cmd env w") auto
    show "terminal_of r0 \<noteq> Succeeded"
    proof (cases res)
      case (Inl e)
      with protected_report [OF t pr] worker_except_Inl [of e st1] show ?thesis by simp
    next
      case (Inr r1)
      with worker_try_cancel [OF nr c] t have "r1 = TerminatedByUser" by blast
      with Inr protected_report [OF t pr] show ?thesis by (simp add: worker_except_Inr)
    qed
  qed
next
  show "work_dir st w = Inr wd \<and> fst (build_temp_config st env w) = Inr d
              \<and> popen_res env = Inr p \<and> read_error env = None
              \<longrightarrow> r = Inr TerminatedByUser \<and> terminal_of TerminatedByUser = Cancelled
                  \<and> render TerminatedByUser \<in> set (output_queue st')"
  proof
    assume a: "work_dir st w = Inr wd \<and> fst (build_temp_config st env w) = Inr d
              \<and> popen_res env = Inr p \<and> read_error env = None"
    then obtain w1 where b: "build_temp_config st env w = (Inr d, w1)"
      by (cases "build_temp_config st env w") simp
    from a have wd: "work_dir st w = Inr wd" and p: "popen_res env = Inr p"
      and e: "read_error env = None" by simp_all
    from run_worker_Inr [OF wd r] obtain r0 where r0: "r = Inr r0"
      and pr: "worker_protected st cmd env w = (r0, st', w')" by blast
    let ?h = "\<lparr>pid = p, returncode = None\<rparr>"
    let ?st2 = "(announce (full_command w1 cmd) d st)\<lparr>proc := Some ?h\<rparr>"
    let ?w2 = "w1\<lparr>spawned := spawned w1 @ [\<lparr>sp_pid = p, sp_cmd = full_command w1 cmd, sp_cwd = d\<rparr>]\<rparr>"
    obtain q st3 w3 where rl0: "reader_loop env 0 (child_lines env) ?st2 ?w2 = (q, st3, w3)"
      by (cases "reader_loop env 0 (child_lines env) ?st2 ?w2")
    from reader_loop_no_error [OF e, of 0 "child_lines env" ?st2 ?w2] rl0 have "q = None"
      by simp
    with rl0 have rl: "reader_loop env 0 (child_lines env) ?st2 ?w2 = (None, st3, w3)"
      by simp
    have s3: "stop_requested st3"
      using c by (intro reader_loop_cancelled [OF nr rl, of ?h]) (simp_all add: poll_def)
    from worker_try_exit [OF b p rl] s3 obtain st4 where
      t: "worker_try st cmd env w = (Inr TerminatedByUser, Some d, st4, w3)"
      and o: "render TerminatedByUser \<in> set (output_queue st4)"
      by (auto simp: exit_report_def)
    from protected_finished [OF t pr] o r0
    show "r = Inr TerminatedByUser \<and> terminal_of TerminatedByUser = Cancelled
            \<and> render TerminatedByUser \<in> set (output_queue st')"
      by auto
  qed
qed

theorem cancel_wins_witness:
  "Cancel \<in> set (concat (ui_events cancelled_env))
   \<and> Run \<notin> set (concat (ui_events cancelled_env))
   \<and> exit_code cancelled_env = 0
   \<and> fst (run_worker example_app [''sync'', ''abc123''] cancelled_env example_world)
       = Inr TerminatedByUser
   \<and> terminal_of TerminatedByUser = Cancelled"
proof -
  let ?res = "run_worker example_app [''sync'', ''abc123''] cancelled_env example_world"
  have wd: "work_dir example_app example_world = Inr ''/home/alice''"
    by (rule example_work_dir)
  have b: "fst (build_temp_config example_app cancelled_env example_world) = Inr ''/tmp/s2t_gui_k3''"
    by (rule example_build) (simp_all add: cancelled_env_def)
  have c: "Cancel \<in> set (concat (ui_events cancelled_env))"
    and nr: "Run \<notin> set (concat (ui_events cancelled_env))"
    and p: "popen_res cancelled_env = Inr 4242"
    and e: "read_error cancelled_env = None"
    and x: "exit_code cancelled_env = 0"
    by (simp_all add: cancelled_env_def)
  have r: "?res = (fst ?res, fst (snd ?res), snd (snd ?res))"
    by simp
  from cancel_wins [OF c nr r, of "''/home/alice''" "''/tmp/s2t_gui_k3''" 4242] wd b p e c nr x
  show ?thesis
    by blast
qed

text \<open>
  The claim as stated fails: \<open>on_run\<close> has no guard and clears the stop flag. After Cancel
  (the flag is set and the child is sent \<open>terminate()\<close>) a press of Run clears the flag
  again, and a child that then exits with code 0 is reported as done.
\<close>

theorem restart_clears_cancel_counterexample:
  "ui_events restarted_env = [[], [Cancel, Run]]
   \<and> exit_code restarted_env = 0
   \<and> threads started_app = [[''sync'', ''abc123'', ''--dry-run'']]
   \<and> stop_requested started_app = False
   \<and> fst (run_worker started_app [''sync'', ''abc123'', ''--dry-run''] restarted_env started_world)
       = Inr Done
   \<and> signalled (snd (snd (run_worker started_app [''sync'', ''abc123'', ''--dry-run'']
                              restarted_env started_world)))
       = [4242]"
  by code_simp

section \<open>Removing the temporary directory\<close>

lemma build_temp_config_Inr:
  "build_temp_config st env w = (Inr d, w1) \<Longrightarrow>
     mkdtemp_res env = Inr d \<and> \<not> path_exists d w \<and> write_res env = None"
  by (auto simp: build_temp_config_def mkdtemp_def write_text_def
      split: sum.splits if_splits option.splits prod.splits)

lemma build_temp_config_exists:
  assumes "build_temp_config st env w = (Inr d, w1)"
  shows "path_exists d w1 \<and> spawned w1 = spawned w"
proof -
  from build_temp_config_Inr [OF assms] build_temp_config_ok [of env d w st] assms
  show ?thesis by auto
qed

lemma worker_try_temp_root:
  assumes b: "build_temp_config st env w = (Inr d, w1)"
  shows "\<exists>res st1 w2. worker_try st cmd env w = (res, Some d, st1, w2) \<and> tmpfs w2 = tmpfs w1"
proof (cases "popen_res env")
  case (Inl e)
  with b show ?thesis by (simp add: worker_try_def popen_spawn_def Let_def)
next
  case (Inr p)
  let ?h = "\<lparr>pid = p, returncode = None\<rparr>"
  let ?st2 = "(announce (full_command w1 cmd) d st)\<lparr>proc := Some ?h\<rparr>"
  let ?w2 = "w1\<lparr>spawned := spawned w1 @ [\<lparr>sp_pid = p, sp_cmd = full_command w1 cmd, sp_cwd = d\<rparr>]\<rparr>"
  obtain q st3 w3 where rl: "reader_loop env 0 (child_lines env) ?st2 ?w2 = (q, st3, w3)"
    by (cases "reader_loop env 0 (child_lines env) ?st2 ?w2")
  from reader_loop_frame [OF rl] have fs: "tmpfs w3 = tmpfs w1" by simp
  show ?thesis
  proof (cases q)
    case (Some e)
    with b Inr rl fs show ?thesis by (simp add: worker_try_def popen_spawn_def Let_def)
  next
    case None
    from worker_try_exit [OF b Inr rl [unfolded None]] fs show ?thesis by auto
  qed
qed

lemma worker_finally_removed:
  "rmtree_ok env \<Longrightarrow> worker_finally (Some d) env st w = (st', w') \<Longrightarrow> \<not> path_exists d w'"
  by (auto simp: worker_finally_def rmtree_def path_exists_def AList.delete_conv' split: if_splits)

lemma worker_finally_left:
  "\<not> rmtree_ok env \<Longrightarrow> worker_finally tr env st w = (st', w') \<Longrightarrow> tmpfs w' = tmpfs w"
  by (auto simp: worker_finally_def rmtree_def split: if_splits option.splits)

lemma protected_split:
  assumes "worker_try st cmd env w = (res, tr, st1, w1)"
    and "worker_protected st cmd env w = (r, st', w')"
  shows "worker_finally tr env (snd (worker_except res st1)) w1 = (st', w')"
  using assms by (auto simp: worker_protected_def split: prod.splits)

text \<open>
  C2 (as amended): whenever \<open>_build_temp_config\<close> returned the temporary directory and
  \<open>shutil.rmtree\<close> manages to delete it, the directory does not exist when the worker
  has finished and the coordinator is idle again (no process handle, status ready):
  whether the child succeeded, failed or was cancelled, could not be spawned, or
  reading its output raised, and whatever buttons were pressed meanwhile. A worker
  that ends in its first statement, before the \<open>try\<close>, has made no directory and
  brings the coordinator nowhere.
\<close>

theorem temp_dir_removed:
  assumes b: "fst (build_temp_config st env w) = Inr d"
    and ok: "rmtree_ok env"
    and r: "run_worker st cmd env w = (r, st', w')"
  shows "\<not> path_exists d w'
         \<and> (work_dir st w = Inr wd \<longrightarrow> proc st' = None \<and> status_var st' = ''Ready.'')"
proof -
  obtain w1 where b': "build_temp_config st env w = (Inr d, w1)"
    using b by (cases "build_temp_config st env w") simp
  from run_worker_cases [OF r] show ?thesis
  proof
    assume "\<exists>e. work_dir st w = Inl e \<and> r = Inl e \<and> st' = st \<and> w' = w"
    with build_temp_config_Inr [OF b'] show ?thesis by auto
  next
    assume "\<exists>wd r0. work_dir st w = Inr wd \<and> r = Inr r0
                   \<and> worker_protected st cmd env w = (r0, st', w')"
    then obtain r0 where pr: "worker_protected st cmd env w = (r0, st', w')" by blast
    from worker_try_temp_root [OF b'] obtain res st1 w2
      where t: "worker_try st cmd env w = (res, Some d, st1, w2)" by blast
    note f = protected_split [OF t pr]
    from worker_finally_removed [OF ok f] worker_finally_frame [OF f] show ?thesis by simp
  qed
qed

theorem temp_dir_removed_witness:
  "fst (build_temp_config example_app cancelled_env example_world) = Inr ''/tmp/s2t_gui_k3''
   \<and> rmtree_ok cancelled_env
   \<and> work_dir example_app example_world = Inr ''/home/alice''
   \<and> \<not> path_exists ''/tmp/s2t_gui_k3''
         (snd (snd (run_worker example_app [''sync'', ''abc123''] cancelled_env example_world)))
   \<and> proc (fst (snd (run_worker example_app [''sync'', ''abc123''] cancelled_env example_world)))
       = None"
proof -
  let ?res = "run_worker example_app [''sync'', ''abc123''] cancelled_env example_world"
  have b: "fst (build_temp_config example_app cancelled_env example_world) = Inr ''/tmp/s2t_gui_k3''"
    by (rule example_build) (simp_all add: cancelled_env_def)
  have ok: "rmtree_ok cancelled_env"
    by (simp add: cancelled_env_def)
  have wd: "work_dir example_app example_world = Inr ''/home/alice''"
    by (rule example_work_dir)
  have r: "?res = (fst ?res, fst (snd ?res), snd (snd ?res))"
    by simp
  from temp_dir_removed [OF b ok r, of "''/home/alice''"] b ok wd show ?thesis
    by blast
qed

lemma temp_dir_left:
  assumes b: "build_temp_config st env w = (Inr d, w1)"
    and ko: "\<not> rmtree_ok env"
    and r: "worker_protected st cmd env w = (r, st', w')"
  shows "path_exists d w' \<and> tmpfs w' = tmpfs w1"
proof -
  from worker_try_temp_root [OF b] obtain res st1 w2
    where t: "worker_try st cmd env w = (res, Some d, st1, w2)" and fs: "tmpfs w2 = tmpfs w1"
    by blast
  from worker_finally_left [OF ko protected_split [OF t r]] fs have "tmpfs w' = tmpfs w1"
    by simp
  with build_temp_config_exists [OF b] show ?thesis
    by (simp add: path_exists_def)
qed

lemma quiet_run_report:
  assumes b: "build_temp_config st env w = (Inr d, w1)"
    and p: "popen_res env = Inr p"
    and e: "read_error env = None"
    and c: "concat (ui_events env) = []"
    and s: "\<not> stop_requested st"
    and r: "worker_protected st cmd env w = (r, st', w')"
  shows "r = exit_report False (exit_code env)"
proof -
  let ?st2 = "(announce (full_command w1 cmd) d st)\<lparr>proc := Some \<lparr>pid = p, returncode = None\<rparr>\<rparr>"
  let ?w2 = "w1\<lparr>spawned := spawned w1 @ [\<lparr>sp_pid = p, sp_cmd = full_command w1 cmd, sp_cwd = d\<rparr>]\<rparr>"
  obtain q st3 w3 where rl: "reader_loop env 0 (child_lines env) ?st2 ?w2 = (q, st3, w3)"
    by (cases "reader_loop env 0 (child_lines env) ?st2 ?w2")
  from reader_loop_no_error [OF e, of 0 "child_lines env" ?st2 ?w2] rl have q: "q = None"
    by simp
  from reader_loop_quiet [OF c rl] s have s3: "\<not> stop_requested st3"
    by (simp add: announce_def put_def)
  from worker_try_exit [OF b p rl [unfolded q]] s3 obtain st4 where
    t: "worker_try st cmd env w = (Inr (exit_report False (exit_code env)), Some d, st4, w3)"
    by auto
  from protected_finished [OF t r] show ?thesis by simp
qed

text \<open>
  The claim without the proviso fails: \<open>rmtree\<close> is called with \<open>ignore_errors=True\<close>,
  so a directory it cannot delete stays, with the credentials in it, after a run that
  succeeded and a coordinator that is idle again.
\<close>

theorem temp_dir_survives_counterexample:
  "fst (build_temp_config example_app stuck_env example_world) = Inr ''/tmp/s2t_gui_k3''
   \<and> fst (run_worker example_app [''sync'', ''abc123''] stuck_env example_world) = Inr Done
   \<and> terminal_of Done = Succeeded
   \<and> proc (fst (snd (run_worker example_app [''sync'', ''abc123''] stuck_env example_world))) = None
   \<and> status_var (fst (snd (run_worker example_app [''sync'', ''abc123''] stuck_env example_world)))
       = ''Ready.''
   \<and> path_exists ''/tmp/s2t_gui_k3''
        (snd (snd (run_worker example_app [''sync'', ''abc123''] stuck_env example_world)))"
proof -
  let ?res = "run_worker example_app [''sync'', ''abc123''] stuck_env example_world"
  have b: "fst (build_temp_config example_app stuck_env example_world) = Inr ''/tmp/s2t_gui_k3''"
    by (rule example_build) (simp_all add: stuck_env_def)
  then obtain w1 where b': "build_temp_config example_app stuck_env example_world
                              = (Inr ''/tmp/s2t_gui_k3'', w1)"
    by (cases "build_temp_config example_app stuck_env example_world") simp
  have r: "?res = (fst ?res, fst (snd ?res), snd (snd ?res))"
    by simp
  from run_worker_Inr [OF example_work_dir r] obtain r0 where r0: "fst ?res = Inr r0"
    and pr: "worker_protected example_app [''sync'', ''abc123''] stuck_env example_world
               = (r0, fst (snd ?res), snd (snd ?res))"
    by blast
  have ko: "\<not> rmtree_ok stuck_env" and p: "popen_res stuck_env = Inr 4242"
    and e: "read_error stuck_env = None" and c: "concat (ui_events stuck_env) = []"
    and x: "exit_code stuck_env = 0"
    by (simp_all add: stuck_env_def)
  have s: "\<not> stop_requested example_app"
    by (simp add: example_app_def)
  from quiet_run_report [OF b' p e c s pr] x r0 have "fst ?res = Inr Done"
    by (simp add: exit_report_def)
  moreover from temp_dir_left [OF b' ko pr] have "path_exists ''/tmp/s2t_gui_k3'' (snd (snd ?res))"
    by simp
  moreover obtain res tr st1 w2 where t: "worker_try example_app [''sync'', ''abc123''] stuck_env example_world = (res, tr, st1, w2)"
    by (cases "worker_try example_app [''sync'', ''abc123''] stuck_env example_world") auto
  from worker_finally_frame [OF protected_split [OF t pr]]
  have "proc (fst (snd ?res)) = None" "status_var (fst (snd ?res)) = ''Ready.''"
    by simp_all
  ultimately show ?thesis using b by simp
qed

text \<open>
  Outside the amended claim: when \<open>write_text\<close> raises inside \<open>_build_temp_config\<close>, the
  assignment to \<open>temp_root\<close> never happens, the \<open>finally\<close> clause finds \<open>None\<close>, and the
  directory that \<open>mkdtemp\<close> made stays.
\<close>

lemma write_failure_leaves_dir:
  assumes m: "mkdtemp_res env = Inr d" and f: "\<not> path_exists d w" and wr: "write_res env = Some x"
    and r: "worker_protected st cmd env w = (r, st', w')"
  shows "path_exists d w' \<and> terminal_of r = Failed"
proof -
  let ?w1 = "w\<lparr>tmpfs := tmpfs w @ [(d, [])]\<rparr>"
  obtain cs where cs: "field_or_secret (var_spotify_client_secret st) ''spotify_client_secret'' ?w1 = Inr cs"
    using field_or_secret_total by blast
  obtain tp where tp: "field_or_secret (var_tidal_password st) ''tidal_password'' ?w1 = Inr tp"
    using field_or_secret_total by blast
  from m f wr cs tp have b: "build_temp_config st env w = (Inl x, ?w1)"
    by (simp add: build_temp_config_def mkdtemp_def write_text_def)
  then have t: "worker_try st cmd env w = (Inl x, None, st, ?w1)"
    by (simp add: worker_try_def)
  from protected_split [OF t r] have "tmpfs w' = tmpfs ?w1"
    by (auto simp: worker_finally_def)
  moreover from f have "path_exists d ?w1"
    by (simp add: path_exists_def map_add_def)
  ultimately have "path_exists d w'"
    by (simp add: path_exists_def)
  with protected_report [OF t r] worker_except_Inl [of x st] show ?thesis
    by simp
qed

section \<open>The working directory of the child\<close>














lemma build_temp_config_spawned:
  "build_temp_config st env w = (res, w1) \<Longrightarrow> spawned w1 = spawned w \<and> sys_executable w1 = sys_executable w"
  by (auto simp: build_temp_config_def mkdtemp_def write_text_def
      split: sum.splits if_splits option.splits prod.splits)






text \<open>
  What the worker does then: the exception leaves the thread before the \<open>try\<close>
  statement, so nothing is reported, deleted or reset.
\<close>

lemma blank_work_dir_ends_worker:
  assumes "py_strip (var_work_dir st) = []" and "cwd w = Inl e"
  shows "run_worker st cmd env w = (Inl e, st, w)"
  using assms by (simp add: run_worker_def work_dir_def)

section \<open>A second run request\<close>

lemma run_worker_spawns:
  assumes b: "build_temp_config st env w = (Inr d, w1)"
    and p: "popen_res env = Inr p"
    and r: "worker_protected st cmd env w = (r, st', w')"
  shows "spawned w' = spawned w @ [\<lparr>sp_pid = p, sp_cmd = full_command w cmd, sp_cwd = d\<rparr>]"
proof -
  note sp1 = build_temp_config_spawned [OF b]
  have fc: "full_command w1 cmd = full_command w cmd"
    using sp1 by (simp add: full_command_def)
  let ?h = "\<lparr>pid = p, returncode = None\<rparr>"
  let ?st2 = "(announce (full_command w1 cmd) d st)\<lparr>proc := Some ?h\<rparr>"
  let ?sp = "\<lparr>sp_pid = p, sp_cmd = full_command w1 cmd, sp_cwd = d\<rparr>"
  let ?w2 = "w1\<lparr>spawned := spawned w1 @ [?sp]\<rparr>"
  obtain q st3 w3 where rl: "reader_loop env 0 (child_lines env) ?st2 ?w2 = (q, st3, w3)"
    by (cases "reader_loop env 0 (child_lines env) ?st2 ?w2")
  from reader_loop_frame [OF rl] sp1 have s3: "spawned w3 = spawned w @ [?sp]" by simp
  obtain res tr st1 w2 where t: "worker_try st cmd env w = (res, tr, st1, w2)"
    by (cases "worker_try st cmd env w") auto
  have "w2 = w3"
  proof (cases q)
    case (Some e)
    with b p rl t show ?thesis by (simp add: worker_try_def popen_spawn_def Let_def)
  next
    case None
    from worker_try_exit [OF b p rl [unfolded None]] t show ?thesis by auto
  qed
  with worker_finally_frame [OF protected_split [OF t r]] s3 fc show ?thesis by simp
qed

text \<open>
  The claim as stated fails: with a child running, a second run request starts a
  second worker, and that worker spawns a second child beside the first.
\<close>

theorem second_run_counterexample:
  "proc running_app = Some \<lparr>pid = 4242, returncode = None\<rparr>
   \<and> poll \<lparr>pid = 4242, returncode = None\<rparr> = None
   \<and> map sp_pid (spawned running_world) = [4242]
   \<and> fst (on_run running_app running_world) = None
   \<and> threads (fst (snd (on_run running_app running_world)))
       = [[''sync'', ''abc123'', ''--dry-run''], [''sync'', ''abc123'', ''--dry-run'']]
   \<and> map sp_pid (spawned (snd (snd (run_worker (fst (snd (on_run running_app running_world)))
                                        [''sync'', ''abc123'', ''--dry-run''] second_env
                                        (snd (snd (on_run running_app running_world)))))))
       = [4242, 4243]"
proof -
  let ?cmd = "[''sync'', ''abc123'', ''--dry-run'']"
  let ?st1 = "fst (snd (on_run running_app running_world))"
  let ?w1 = "snd (snd (on_run running_app running_world))"
  let ?res = "run_worker ?st1 ?cmd second_env ?w1"
  have v: "validate_basics running_app running_world = Inr None"
    by (rule example_validates)
  obtain e sta wa where s: "on_save_settings running_app running_world = (e, sta, wa)"
    by (cases "on_save_settings running_app running_world") auto
  with on_save_settings_ok [OF running_world_ok, of running_app] have e: "e = None" by simp
  have c: "prepare_command running_app = Some ?cmd"
    by (rule prepare_command_sync_example) (rule running_fields)+
  note run = on_run_starts [OF v s [unfolded e] c]
  from run on_save_settings_app [OF s] running_fields(5)
  have th: "fst (on_run running_app running_world) = None" "threads ?st1 = [?cmd, ?cmd]"
    by (simp_all add: start_worker_def set_status_def)
  have r1: "on_run running_app running_world = (None, ?st1, ?w1)"
    using run by simp
  note fr = on_run_frame [OF r1]
  have sp0: "map sp_pid (spawned running_world) = [4242]"
    by (simp add: running_world_def)
  have fresh: "\<not> path_exists ''/tmp/s2t_gui_q7'' ?w1"
    using fr by (simp add: path_exists_def running_world_def)
  have m: "mkdtemp_res second_env = Inr ''/tmp/s2t_gui_q7''" and wr: "write_res second_env = None"
    and p: "popen_res second_env = Inr 4243"
    by (simp_all add: second_env_def)
  from build_temp_config_ok [OF m fresh wr, of ?st1] obtain w2
    where b: "build_temp_config ?st1 second_env ?w1 = (Inr ''/tmp/s2t_gui_q7'', w2)"
    by blast
  have r2: "?res = (fst ?res, fst (snd ?res), snd (snd ?res))"
    by simp
  from on_save_settings_frame [OF s]
  have eq: "sta = running_app\<lparr>settings := settings_from_ui running_app, dialogs := dialogs sta\<rparr>"
    by simp
  have vw: "var_work_dir sta = var_work_dir running_app"
    by (subst eq) simp
  have wd0: "work_dir running_app running_world = Inr ''/home/alice''"
    by (simp add: work_dir_def running_app_def example_app_def py_strip_def py_isspace_def)
  from run vw on_save_settings_world [OF s]
  have "work_dir ?st1 ?w1 = work_dir running_app running_world"
    by (simp add: work_dir_def start_worker_def set_status_def)
  with wd0 have "work_dir ?st1 ?w1 = Inr ''/home/alice''"
    by (simp only:)
  from run_worker_Inr [OF this r2] obtain r0
    where pr: "worker_protected ?st1 ?cmd second_env ?w1 = (r0, fst (snd ?res), snd (snd ?res))"
    by blast
  from run_worker_spawns [OF b p pr] fr sp0
  have "map sp_pid (spawned (snd (snd ?res))) = [4242, 4243]"
    by simp
  with th sp0 running_fields(4) show ?thesis
    by (simp add: poll_def)
qed

end
